theory Spec2Isabelle
  imports Main
begin

section \<open>Swedish holiday calendar generator\<close>

text \<open>
  A shallow embedding of \<^verbatim>\<open>generator.py\<close>. Python integers are \<open>int\<close>. A Python
  string is the list of its code points; every character the program uses lies below
  256, so a code point is one \<open>char\<close> (\<open>CHR 0xE5\<close> is the a with ring, \<open>CHR 0xE4\<close> the a
  with diaeresis, \<open>CHR 0xF6\<close> the o with diaeresis, \<open>CHR 0xA7\<close> the section sign).
  Exceptions are values of \<open>error\<close>; a function that can raise returns \<open>error + 'a\<close>.
\<close>

datatype error = ValueError | OverflowError

definition bindE :: "error + 'a \<Rightarrow> ('a \<Rightarrow> error + 'b) \<Rightarrow> error + 'b" where
  "bindE r f = (case r of Inl e \<Rightarrow> Inl e | Inr x \<Rightarrow> f x)"

subsection \<open>The date library\<close>

text \<open>
  Modelled from the spec: \<^verbatim>\<open>date\<close> and \<^verbatim>\<open>timedelta\<close> come from the standard
  library, which is not part of the repository. The spec speaks of the "proleptic
  Gregorian range supported by the date library"; the definitions below follow the
  library's ordinal arithmetic (years 1 to 9999, ordinal 1 is January 1 of year 1).
\<close>

record date =
  year :: int
  month :: int
  day :: int

definition MINYEAR :: int where "MINYEAR = 1"
definition MAXYEAR :: int where "MAXYEAR = 9999"
definition MAXORDINAL :: int where "MAXORDINAL = 3652059"

definition DAYS_IN_MONTH :: "int list" where
  "DAYS_IN_MONTH = [-1, 31, 28, 31, 30, 31, 30, 31, 31, 30, 31, 30, 31]"

definition DAYS_BEFORE_MONTH :: "int list" where
  "DAYS_BEFORE_MONTH = [-1, 0, 31, 59, 90, 120, 151, 181, 212, 243, 273, 304, 334]"

definition is_leap :: "int \<Rightarrow> bool" where
  "is_leap y = (y mod 4 = 0 \<and> (y mod 100 \<noteq> 0 \<or> y mod 400 = 0))"

definition days_before_year :: "int \<Rightarrow> int" where
  "days_before_year y' = (let y = y' - 1 in y * 365 + y div 4 - y div 100 + y div 400)"

definition days_in_month :: "int \<Rightarrow> int \<Rightarrow> int" where
  "days_in_month y m = (if m = 2 \<and> is_leap y then 29 else DAYS_IN_MONTH ! nat m)"

definition days_before_month :: "int \<Rightarrow> int \<Rightarrow> int" where
  "days_before_month y m = DAYS_BEFORE_MONTH ! nat m + (if m > 2 \<and> is_leap y then 1 else 0)"

definition ymd2ord :: "int \<Rightarrow> int \<Rightarrow> int \<Rightarrow> int" where
  "ymd2ord y m d = days_before_year y + days_before_month y m + d"

definition DI400Y :: int where "DI400Y = 146097"
definition DI100Y :: int where "DI100Y = 36524"
definition DI4Y :: int where "DI4Y = 1461"

definition ord2ymd :: "int \<Rightarrow> date" where
  "ord2ymd n0 =
     (let n = n0 - 1;
          n400 = n div DI400Y; n = n mod DI400Y;
          y = n400 * 400 + 1;
          n100 = n div DI100Y; n = n mod DI100Y;
          n4 = n div DI4Y; n = n mod DI4Y;
          n1 = n div 365; n = n mod 365;
          y = y + n100 * 100 + n4 * 4 + n1
      in if n1 = 4 \<or> n100 = 4 then \<lparr>year = y - 1, month = 12, day = 31\<rparr>
         else
           let leapyear = (n1 = 3 \<and> (n4 \<noteq> 24 \<or> n100 = 3));
               m = (n + 50) div 32;
               preceding = DAYS_BEFORE_MONTH ! nat m + (if m > 2 \<and> leapyear then 1 else 0);
               (m, preceding) =
                  (if preceding > n
                   then (m - 1, preceding
                           - (DAYS_IN_MONTH ! nat (m - 1) + (if m - 1 = 2 \<and> leapyear then 1 else 0)))
                   else (m, preceding))
           in \<lparr>year = y, month = m, day = n - preceding + 1\<rparr>)"

text \<open>
  The constructor \<^verbatim>\<open>date(year, month, day)\<close> first converts its three arguments to
  C integers of 32 bits, which raises \<^verbatim>\<open>OverflowError\<close> when one of them does not
  fit, and then checks the fields, which raises \<^verbatim>\<open>ValueError\<close>.
\<close>

definition fits_c_int :: "int \<Rightarrow> bool" where
  "fits_c_int n \<longleftrightarrow> - (2 ^ 31) \<le> n \<and> n < 2 ^ 31"

definition date :: "int \<Rightarrow> int \<Rightarrow> int \<Rightarrow> error + date" where
  "date y m d =
     (if \<not> (fits_c_int y \<and> fits_c_int m \<and> fits_c_int d) then Inl OverflowError
      else if \<not> (MINYEAR \<le> y \<and> y \<le> MAXYEAR) then Inl ValueError
      else if \<not> (1 \<le> m \<and> m \<le> 12) then Inl ValueError
      else if \<not> (1 \<le> d \<and> d \<le> days_in_month y m) then Inl ValueError
      else Inr \<lparr>year = y, month = m, day = d\<rparr>)"

definition toordinal :: "date \<Rightarrow> int" where
  "toordinal dt = ymd2ord (year dt) (month dt) (day dt)"

text \<open>\<^verbatim>\<open>weekday()\<close>: Monday is 0 and Sunday is 6.\<close>

definition weekday :: "date \<Rightarrow> int" where
  "weekday dt = (toordinal dt + 6) mod 7"

text \<open>
  A \<^verbatim>\<open>timedelta\<close> built from whole days and weeks is its number of days.
\<close>

type_synonym timedelta = int

definition timedelta :: "int \<Rightarrow> int \<Rightarrow> timedelta" where
  "timedelta days weeks = days + weeks * 7"

definition date_add :: "date \<Rightarrow> timedelta \<Rightarrow> error + date" where
  "date_add dt td =
     (let o' = toordinal dt + td
      in if 0 < o' \<and> o' \<le> MAXORDINAL then Inr (ord2ymd o') else Inl OverflowError)"

definition date_sub :: "date \<Rightarrow> timedelta \<Rightarrow> error + date" where
  "date_sub dt td = date_add dt (- td)"

subsection \<open>Easter\<close>

text \<open>
  Modelled from the spec: \<^verbatim>\<open>dateutil.easter.easter\<close> is not part of the repository.
  The spec calls it the "standard ecclesiastical Easter computation" whose output is
  "the Gregorian date of Easter Sunday for that year"; the definition is the library's
  default (western) method, ending in the \<^verbatim>\<open>date\<close> constructor.
\<close>

definition easter :: "int \<Rightarrow> error + date" where
  "easter y =
     (let g = y mod 19;
          e = 0;
          c = y div 100;
          h = (c - c div 4 - (8 * c + 13) div 25 + 19 * g + 15) mod 30;
          i = h - (h div 28) * (1 - (h div 28) * (29 div (h + 1)) * ((21 - g) div 11));
          j = (y + y div 4 + i + 2 - c + c div 4) mod 7;
          p = i - j + e;
          d = 1 + (p + 27 + (p + 6) div 40) mod 31;
          m = 3 + (p + 26) div 30
      in date y m d)"

subsection \<open>Events\<close>

text \<open>
  Modelled from the spec: \<^verbatim>\<open>Event\<close>, \<^verbatim>\<open>vRecur\<close>, \<^verbatim>\<open>vFrequency\<close> and
  \<^verbatim>\<open>vWeekday\<close> come from \<^verbatim>\<open>icalendar\<close>, which is not part of the repository. The
  spec lists what an event block holds: "unique id, transparency=TRANSPARENT, start date
  (date-only, no time component), summary text, optional category text, optional
  description text, and an optional yearly recurrence rule expressed with
  frequency=YEARLY and, where applicable, by-day/by-month-day/by-month constraints". An
  event is the record of these properties; a property that was never added is \<open>None\<close>.
  The program adds each property of an event at most once.
\<close>

datatype Work = FREE | DEFACTO | DEPENDS

datatype vFrequency = SECONDLY | MINUTELY | HOURLY | DAILY | WEEKLY | MONTHLY | YEARLY

datatype vWeekday = SU | MO | TU | WE | TH | FR | SA

text \<open>
  A \<^verbatim>\<open>vRecur\<close> is a dictionary of rule parts; a part that was never set is \<open>None\<close>.
  \<^verbatim>\<open>BYMONTH\<close> is set to the single number 6 or to the tuple (10, 11); both are
  lists of months here.
\<close>

record vRecur =
  FREQ :: vFrequency
  BYDAY :: "vWeekday option"
  BYMONTHDAY :: "int list option"
  BYMONTH :: "int list option"

text \<open>
  \<^verbatim>\<open>uuid.uuid1()\<close> depends on the clock and the host. Its results are a parameter of
  the model: a generator \<open>U\<close> gives the identifier returned by the \<open>n\<close>-th call.
\<close>

type_synonym uid = nat
type_synonym uuid_gen = "nat \<Rightarrow> uid"

record Event =
  uid :: uid
  transp :: string
  dtstart :: date
  summary :: string
  categories :: "string option"
  description :: "string option"
  rrule :: "vRecur option"

definition Ledighet_enligt_avtal :: string where
  "Ledighet_enligt_avtal = ''Ledighet enligt avtal''"

definition depends_description :: string where
  "depends_description =
     ''Denna dag har inte lagstadgad st'' @ [CHR 0xE4] @ ''llning som arbetsfri''
     @ '' dag. M'' @ [CHR 0xE5] @ ''nga arbetsplatser har '' @ [CHR 0xE4] @ ''nd''
     @ [CHR 0xE5] @ '' f'' @ [CHR 0xF6] @ ''rkortad arbetstid''
     @ '' enligt kollektivavtal eller lokala avtal.''"

definition defacto_description :: string where
  "defacto_description =
     ''Denna dag r'' @ [CHR 0xE4] @ ''knas som s'' @ [CHR 0xF6] @ ''ndag enligt 3 a ''
     @ [CHR 0xA7] @ '' i Semesterlagen''
     @ '' och '' @ [CHR 0xE4] @ ''r d'' @ [CHR 0xE4] @ ''rmed arbetsfri.''"

definition Holiday :: "uid \<Rightarrow> date \<Rightarrow> string \<Rightarrow> Work \<Rightarrow> Event" where
  "Holiday u dt s work =
     (let self = \<lparr>uid = u, transp = ''TRANSPARENT'', dtstart = dt, summary = s,
                  categories = None, description = None, rrule = None\<rparr>
      in if work = DEPENDS
         then self\<lparr>categories := Some Ledighet_enligt_avtal,
                   description := Some depends_description\<rparr>
         else if work = DEFACTO
         then self\<lparr>description := Some defacto_description\<rparr>
         else self)"

definition FixedHoliday :: "uid \<Rightarrow> date \<Rightarrow> string \<Rightarrow> Work \<Rightarrow> Event" where
  "FixedHoliday u dt s work =
     (Holiday u dt s work)
       \<lparr>rrule := Some \<lparr>FREQ = YEARLY, BYDAY = None, BYMONTHDAY = None, BYMONTH = None\<rparr>\<rparr>"

subsection \<open>The calendar under construction\<close>

text \<open>
  Modelled from the spec: \<^verbatim>\<open>icalendar.Calendar\<close> is not part of the repository. The
  spec's document "carries fixed product metadata (a constant identifier string and
  format version "2.0")" and contains "one event block per HolidayEvent". A calendar is
  the list of its properties and the list of its events, both in order of insertion.
  As in the library, \<^verbatim>\<open>add\<close> stores a property under its upper-cased name, and a
  name that was added before collects the new value after the earlier ones.
\<close>

record Calendar =
  properties :: "(string \<times> string list) list"
  subcomponents :: "Event list"

definition Calendar_new :: Calendar where
  "Calendar_new = \<lparr>properties = [], subcomponents = []\<rparr>"

text \<open>\<^verbatim>\<open>str.upper\<close> on the letters a to z; the names the program uses have no other.\<close>

definition upper :: "string \<Rightarrow> string" where
  "upper s = map (\<lambda>c. if 97 \<le> (of_char c :: nat) \<and> (of_char c :: nat) \<le> 122
                        then char_of (of_char c - 32 :: nat) else c) s"

fun add_property :: "string \<Rightarrow> string \<Rightarrow> (string \<times> string list) list
                       \<Rightarrow> (string \<times> string list) list" where
  "add_property k v [] = [(k, [v])]"
| "add_property k v ((k', vs) # ps) =
     (if k = k' then (k', vs @ [v]) # ps else (k', vs) # add_property k v ps)"

definition add :: "string \<Rightarrow> string \<Rightarrow> Calendar \<Rightarrow> Calendar" where
  "add name v c = c\<lparr>properties := add_property (upper name) v (properties c)\<rparr>"

definition add_component :: "Event \<Rightarrow> Calendar \<Rightarrow> Calendar" where
  "add_component ev c = c\<lparr>subcomponents := subcomponents c @ [ev]\<rparr>"

text \<open>
  The state of a run: the calendar built so far and the number of calls of
  \<^verbatim>\<open>uuid1\<close> made so far. A statement maps a state to a new state or raises.
\<close>

record state =
  cal :: Calendar
  uuids :: nat

type_synonym stmt = "state \<Rightarrow> error + state"

text \<open>
  \<^verbatim>\<open>add_component(K(dt, ...))\<close> for an event class \<open>K\<close>: the date expression is
  evaluated first and may raise; then the constructor draws the identifier; then the
  event is appended.
\<close>

definition add_event :: "uuid_gen \<Rightarrow> (uid \<Rightarrow> date \<Rightarrow> Event) \<Rightarrow> error + date \<Rightarrow> stmt" where
  "add_event U mk r st =
     bindE r (\<lambda>dt. Inr (st\<lparr>cal := add_component (mk (U (uuids st)) dt) (cal st),
                             uuids := Suc (uuids st)\<rparr>))"

fun run :: "stmt list \<Rightarrow> stmt" where
  "run [] st = Inr st"
| "run (s # ss) st = bindE (s st) (run ss)"

subsection \<open>Holiday names\<close>

definition Nyarsdagen :: string where "Nyarsdagen = ''Ny'' @ [CHR 0xE5] @ ''rsdagen''"
definition Trettondagsafton :: string where "Trettondagsafton = ''Trettondagsafton''"
definition Trettondedag_jul :: string where "Trettondedag_jul = ''Trettondedag jul''"
definition Valborgsmassoafton :: string where
  "Valborgsmassoafton = ''Valborgsm'' @ [CHR 0xE4] @ ''ssoafton''"
definition Forsta_maj :: string where "Forsta_maj = ''F'' @ [CHR 0xF6] @ ''rsta maj''"
definition Sveriges_nationaldag :: string where "Sveriges_nationaldag = ''Sveriges nationaldag''"
definition Julafton :: string where "Julafton = ''Julafton''"
definition Juldagen :: string where "Juldagen = ''Juldagen''"
definition Annandag_jul :: string where "Annandag_jul = ''Annandag jul''"
definition Nyarsafton :: string where "Nyarsafton = ''Ny'' @ [CHR 0xE5] @ ''rsafton''"
definition Skartorsdagen :: string where "Skartorsdagen = ''Sk'' @ [CHR 0xE4] @ ''rtorsdagen''"
definition Langfredagen :: string where "Langfredagen = ''L'' @ [CHR 0xE5] @ ''ngfredagen''"
definition Paskafton :: string where "Paskafton = ''P'' @ [CHR 0xE5] @ ''skafton''"
definition Paskdagen :: string where "Paskdagen = ''P'' @ [CHR 0xE5] @ ''skdagen''"
definition Annandag_pask :: string where "Annandag_pask = ''Annandag p'' @ [CHR 0xE5] @ ''sk''"
definition Kristi_himmelsfardsdag :: string where
  "Kristi_himmelsfardsdag = ''Kristi himmelsf'' @ [CHR 0xE4] @ ''rdsdag''"
definition Pingstafton :: string where "Pingstafton = ''Pingstafton''"
definition Pingstdagen :: string where "Pingstdagen = ''Pingstdagen''"
definition Midsommarafton :: string where "Midsommarafton = ''Midsommarafton''"
definition Midsommardagen :: string where "Midsommardagen = ''Midsommardagen''"
definition Allhelgonaafton :: string where "Allhelgonaafton = ''Allhelgonaafton''"
definition Alla_helgons_dag :: string where "Alla_helgons_dag = ''Alla helgons dag''"

subsection \<open>The methods of \<^verbatim>\<open>Calendar\<close>\<close>

definition add_easter :: "uuid_gen \<Rightarrow> int \<Rightarrow> stmt" where
  "add_easter U y st =
     bindE (easter y) (\<lambda>easter.
       run [add_event U (\<lambda>u dt. Holiday u dt Skartorsdagen DEPENDS)
              (date_sub easter (timedelta 3 0)),
            add_event U (\<lambda>u dt. Holiday u dt Langfredagen FREE)
              (date_sub easter (timedelta 2 0)),
            add_event U (\<lambda>u dt. Holiday u dt Paskafton FREE)
              (date_sub easter (timedelta 1 0)),
            add_event U (\<lambda>u dt. Holiday u dt Paskdagen FREE)
              (Inr easter),
            add_event U (\<lambda>u dt. Holiday u dt Annandag_pask FREE)
              (date_add easter (timedelta 1 0)),
            add_event U (\<lambda>u dt. Holiday u dt Kristi_himmelsfardsdag FREE)
              (date_add easter (timedelta 4 5)),
            add_event U (\<lambda>u dt. Holiday u dt Pingstafton FREE)
              (date_add easter (timedelta 6 6)),
            add_event U (\<lambda>u dt. Holiday u dt Pingstdagen FREE)
              (date_add easter (timedelta 0 7))] st)"

definition midsummers_eve_rrule :: vRecur where
  "midsummers_eve_rrule =
     \<lparr>FREQ = YEARLY, BYDAY = Some FR,
      BYMONTHDAY = Some [19, 20, 21, 22, 23, 24, 25], BYMONTH = Some [6]\<rparr>"

definition midsummer_day_rrule :: vRecur where
  "midsummer_day_rrule =
     \<lparr>FREQ = YEARLY, BYDAY = Some SA,
      BYMONTHDAY = Some [20, 21, 22, 23, 24, 25, 26], BYMONTH = Some [6]\<rparr>"

definition all_saints_eve_rrule :: vRecur where
  "all_saints_eve_rrule =
     \<lparr>FREQ = YEARLY, BYDAY = Some FR,
      BYMONTHDAY = Some [30, 31, 1, 2, 3, 4, 5], BYMONTH = Some [10, 11]\<rparr>"

definition all_saints_day_rrule :: vRecur where
  "all_saints_day_rrule =
     \<lparr>FREQ = YEARLY, BYDAY = Some SA,
      BYMONTHDAY = Some [31, 1, 2, 3, 4, 5, 6], BYMONTH = Some [10, 11]\<rparr>"

definition add_midsummers_eve :: "uuid_gen \<Rightarrow> int \<Rightarrow> stmt" where
  "add_midsummers_eve U y =
     add_event U (\<lambda>u dt. (Holiday u dt Midsommarafton DEFACTO)\<lparr>rrule := Some midsummers_eve_rrule\<rparr>)
       (date y 1 1)"

definition add_midsummer_day :: "uuid_gen \<Rightarrow> int \<Rightarrow> stmt" where
  "add_midsummer_day U y =
     add_event U (\<lambda>u dt. (Holiday u dt Midsommardagen FREE)\<lparr>rrule := Some midsummer_day_rrule\<rparr>)
       (date y 1 1)"

definition add_all_saints_eve :: "uuid_gen \<Rightarrow> int \<Rightarrow> stmt" where
  "add_all_saints_eve U y =
     add_event U (\<lambda>u dt. (Holiday u dt Allhelgonaafton DEPENDS)\<lparr>rrule := Some all_saints_eve_rrule\<rparr>)
       (date y 1 1)"

definition add_all_saints_day :: "uuid_gen \<Rightarrow> int \<Rightarrow> stmt" where
  "add_all_saints_day U y =
     add_event U (\<lambda>u dt. (Holiday u dt Alla_helgons_dag FREE)\<lparr>rrule := Some all_saints_day_rrule\<rparr>)
       (date y 1 1)"

subsection \<open>\<^verbatim>\<open>generate\<close>\<close>

definition add_fixed :: "uuid_gen \<Rightarrow> int \<Rightarrow> int \<Rightarrow> int \<Rightarrow> string \<Rightarrow> Work \<Rightarrow> stmt" where
  "add_fixed U y m d s work = add_event U (\<lambda>u dt. FixedHoliday u dt s work) (date y m d)"

definition prodid :: string where
  "prodid = ''-//Mozilla.org/NONSGML Mozilla Calendar V1.1//''"

definition generate_stmts :: "uuid_gen \<Rightarrow> int \<Rightarrow> int \<Rightarrow> stmt list" where
  "generate_stmts U start_year count =
     [add_fixed U start_year 1 1 Nyarsdagen FREE,
      add_fixed U start_year 1 5 Trettondagsafton DEPENDS,
      add_fixed U start_year 1 6 Trettondedag_jul FREE]
     @ map (\<lambda>i. add_easter U (start_year + i)) [0..count - 1]
     @ [add_fixed U start_year 4 30 Valborgsmassoafton DEPENDS,
        add_fixed U start_year 5 1 Forsta_maj FREE,
        add_fixed U start_year 6 6 Sveriges_nationaldag FREE,
        add_midsummers_eve U start_year,
        add_midsummer_day U start_year,
        add_all_saints_eve U start_year,
        add_all_saints_day U start_year,
        add_fixed U start_year 12 24 Julafton DEFACTO,
        add_fixed U start_year 12 25 Juldagen FREE,
        add_fixed U start_year 12 26 Annandag_jul FREE,
        add_fixed U start_year 12 31 Nyarsafton DEFACTO]"

definition generate :: "uuid_gen \<Rightarrow> int \<Rightarrow> int \<Rightarrow> error + Calendar" where
  "generate U start_year count =
     (let calendar = add ''version'' ''2.0'' (add ''prodid'' prodid Calendar_new)
      in bindE (run (generate_stmts U start_year count) \<lparr>cal = calendar, uuids = 0\<rparr>)
           (\<lambda>st. Inr (cal st)))"

text \<open>A generator for concrete runs: the \<open>n\<close>-th identifier is \<open>n\<close>.\<close>

definition counting_uuids :: uuid_gen where
  "counting_uuids n = n"

section \<open>Notions used in the statements\<close>

subsection \<open>Quantities of the Easter computation\<close>

text \<open>
  The values \<open>i\<close> and \<open>p\<close> that \<open>easter\<close> computes for a year, and the date they
  determine: \<open>p\<close> days after March 28.
\<close>

definition easter_i :: "int \<Rightarrow> int" where
  "easter_i y =
     (let g = y mod 19; c = y div 100;
          h = (c - c div 4 - (8 * c + 13) div 25 + 19 * g + 15) mod 30
      in h - (h div 28) * (1 - (h div 28) * (29 div (h + 1)) * ((21 - g) div 11)))"

definition easter_p :: "int \<Rightarrow> int" where
  "easter_p y =
     (let c = y div 100; i = easter_i y
      in i - (y + y div 4 + i + 2 - c + c div 4) mod 7)"

definition easter_date :: "int \<Rightarrow> date" where
  "easter_date y =
     \<lparr>year = y, month = (if easter_p y < 4 then 3 else 4),
      day = (if easter_p y < 4 then 28 + easter_p y else easter_p y - 3)\<rparr>"

subsection \<open>The events of a successful run\<close>

text \<open>Appending a list of fresh events to the calendar of a state.\<close>

definition emit :: "Event list \<Rightarrow> state \<Rightarrow> state" where
  "emit es st =
     st\<lparr>cal := (cal st)\<lparr>subcomponents := subcomponents (cal st) @ es\<rparr>,
        uuids := uuids st + length es\<rparr>"

text \<open>A record of year, month and day is a date when the constructor accepts it.\<close>

definition valid_date :: "date \<Rightarrow> bool" where
  "valid_date dt \<longleftrightarrow> date (year dt) (month dt) (day dt) = Inr dt"

text \<open>
  The date \<open>k\<close> days after a date, when it is in range; and the eight events of one
  year, the first of them created by call number \<open>n\<close> of the identifier generator.
\<close>

definition days_after :: "date \<Rightarrow> int \<Rightarrow> date" where
  "days_after dt k = ord2ymd (toordinal dt + k)"

definition easter_events :: "uuid_gen \<Rightarrow> nat \<Rightarrow> int \<Rightarrow> Event list" where
  "easter_events U n y =
     [Holiday (U n) (days_after (easter_date y) (- 3)) Skartorsdagen DEPENDS,
      Holiday (U (n + 1)) (days_after (easter_date y) (- 2)) Langfredagen FREE,
      Holiday (U (n + 2)) (days_after (easter_date y) (- 1)) Paskafton FREE,
      Holiday (U (n + 3)) (easter_date y) Paskdagen FREE,
      Holiday (U (n + 4)) (days_after (easter_date y) 1) Annandag_pask FREE,
      Holiday (U (n + 5)) (days_after (easter_date y) 39) Kristi_himmelsfardsdag FREE,
      Holiday (U (n + 6)) (days_after (easter_date y) 48) Pingstafton FREE,
      Holiday (U (n + 7)) (days_after (easter_date y) 49) Pingstdagen FREE]"

definition all_easter_events :: "uuid_gen \<Rightarrow> nat \<Rightarrow> int \<Rightarrow> int \<Rightarrow> Event list" where
  "all_easter_events U n start_year count =
     concat (map (\<lambda>i. easter_events U (n + 8 * nat i) (start_year + i)) [0..count - 1])"

definition head_events :: "uuid_gen \<Rightarrow> int \<Rightarrow> Event list" where
  "head_events U y =
     [FixedHoliday (U 0) \<lparr>year = y, month = 1, day = 1\<rparr> Nyarsdagen FREE,
      FixedHoliday (U 1) \<lparr>year = y, month = 1, day = 5\<rparr> Trettondagsafton DEPENDS,
      FixedHoliday (U 2) \<lparr>year = y, month = 1, day = 6\<rparr> Trettondedag_jul FREE]"

definition window_events :: "uuid_gen \<Rightarrow> nat \<Rightarrow> int \<Rightarrow> Event list" where
  "window_events U n y =
     [(Holiday (U n) \<lparr>year = y, month = 1, day = 1\<rparr> Midsommarafton DEFACTO)
        \<lparr>rrule := Some midsummers_eve_rrule\<rparr>,
      (Holiday (U (n + 1)) \<lparr>year = y, month = 1, day = 1\<rparr> Midsommardagen FREE)
        \<lparr>rrule := Some midsummer_day_rrule\<rparr>,
      (Holiday (U (n + 2)) \<lparr>year = y, month = 1, day = 1\<rparr> Allhelgonaafton DEPENDS)
        \<lparr>rrule := Some all_saints_eve_rrule\<rparr>,
      (Holiday (U (n + 3)) \<lparr>year = y, month = 1, day = 1\<rparr> Alla_helgons_dag FREE)
        \<lparr>rrule := Some all_saints_day_rrule\<rparr>]"

definition tail_events :: "uuid_gen \<Rightarrow> nat \<Rightarrow> int \<Rightarrow> Event list" where
  "tail_events U n y =
     [FixedHoliday (U n) \<lparr>year = y, month = 4, day = 30\<rparr> Valborgsmassoafton DEPENDS,
      FixedHoliday (U (n + 1)) \<lparr>year = y, month = 5, day = 1\<rparr> Forsta_maj FREE,
      FixedHoliday (U (n + 2)) \<lparr>year = y, month = 6, day = 6\<rparr> Sveriges_nationaldag FREE]
     @ window_events U (n + 3) y
     @ [FixedHoliday (U (n + 7)) \<lparr>year = y, month = 12, day = 24\<rparr> Julafton DEFACTO,
        FixedHoliday (U (n + 8)) \<lparr>year = y, month = 12, day = 25\<rparr> Juldagen FREE,
        FixedHoliday (U (n + 9)) \<lparr>year = y, month = 12, day = 26\<rparr> Annandag_jul FREE,
        FixedHoliday (U (n + 10)) \<lparr>year = y, month = 12, day = 31\<rparr> Nyarsafton DEFACTO]"

definition expected_events :: "uuid_gen \<Rightarrow> int \<Rightarrow> int \<Rightarrow> Event list" where
  "expected_events U start_year count =
     head_events U start_year
     @ all_easter_events U 3 start_year count
     @ tail_events U (3 + 8 * nat count) start_year"

definition expected_calendar :: "uuid_gen \<Rightarrow> int \<Rightarrow> int \<Rightarrow> Calendar" where
  "expected_calendar U start_year count =
     \<lparr>properties = [(''PRODID'', [prodid]), (''VERSION'', [''2.0''])],
      subcomponents = expected_events U start_year count\<rparr>"

text \<open>
  The arguments for which the run raises no error, and the error raised for the others:
  it comes from the \<^verbatim>\<open>date\<close> constructor, called with the start year or with the
  year 10000.
\<close>

definition in_range :: "int \<Rightarrow> int \<Rightarrow> bool" where
  "in_range start_year count \<longleftrightarrow>
     1 \<le> start_year \<and> start_year \<le> 9999 \<and> start_year + count \<le> 10000"

definition range_error :: "int \<Rightarrow> error" where
  "range_error start_year = (if fits_c_int start_year then ValueError else OverflowError)"

subsection \<open>Kinds of events\<close>

definition recurring :: "Event \<Rightarrow> bool" where
  "recurring e \<longleftrightarrow> rrule e \<noteq> None"

definition weekday_window :: "Event \<Rightarrow> bool" where
  "weekday_window e \<longleftrightarrow> (case rrule e of None \<Rightarrow> False | Some r \<Rightarrow> BYDAY r \<noteq> None)"

definition fixed_date :: "Event \<Rightarrow> bool" where
  "fixed_date e \<longleftrightarrow> (case rrule e of None \<Rightarrow> False | Some r \<Rightarrow> BYDAY r = None)"

text \<open>An event without its identifier.\<close>

definition anonymous :: "Event \<Rightarrow> Event" where
  "anonymous e = e\<lparr>uid := 0\<rparr>"




section \<open>Auxiliary facts\<close>

subsection \<open>Arithmetic of the calendar\<close>

lemma pred_div:
  fixes y k :: int
  assumes "0 < k"
  shows "(y - 1) div k = y div k - (if y mod k = 0 then 1 else 0)"
proof (cases "y mod k = 0")
  case True
  have "y - 1 = k * (y div k - 1) + (k - 1)"
    using True mult_div_mod_eq [of k y] by (simp add: algebra_simps)
  then have "(y - 1) div k = y div k - 1"
    using assms int_div_pos_eq [of "y - 1" k "y div k - 1" "k - 1"] by simp
  then show ?thesis using True by simp
next
  case False
  have r: "0 \<le> y mod k" "y mod k < k" using assms by simp_all
  have "y - 1 = k * (y div k) + (y mod k - 1)"
    using mult_div_mod_eq [of k y] by (simp add: algebra_simps)
  then have "(y - 1) div k = y div k"
    using r False int_div_pos_eq [of "y - 1" k "y div k" "y mod k - 1"] by simp
  then show ?thesis using False by simp
qed

lemma mod_0_trans:
  fixes y a b :: int
  assumes "a dvd b" "y mod b = 0"
  shows "y mod a = 0"
  using assms by (meson dvd_trans mod_eq_0_iff_dvd)

lemma leap_days:
  "days_before_year y + (if is_leap y then 1 else 0)
     = 365 * (y - 1) + y div 4 - y div 100 + (y div 100) div 4"
proof -
  have a: "(y - 1) div 4 = y div 4 - (if y mod 4 = 0 then 1 else 0)" by (rule pred_div) simp
  have b: "(y - 1) div 100 = y div 100 - (if y mod 100 = 0 then 1 else 0)" by (rule pred_div) simp
  have c: "(y - 1) div 400 = y div 400 - (if y mod 400 = 0 then 1 else 0)" by (rule pred_div) simp
  have d: "y div 400 = (y div 100) div 4"
    using zdiv_zmult2_eq [of 4 y 100] by simp
  have e: "y mod 400 = 0 \<Longrightarrow> y mod 100 = 0"
    by (rule mod_0_trans [of 100 400]) simp_all
  have f: "y mod 100 = 0 \<Longrightarrow> y mod 4 = 0"
    by (rule mod_0_trans [of 4 100]) simp_all
  show ?thesis
    using e f unfolding days_before_year_def is_leap_def Let_def a b c d by auto
qed

lemma easter_i_aux:
  fixes h g :: int
  assumes "0 \<le> h" "h < 30" "0 \<le> g" "g < 19"
  shows "0 \<le> h - (h div 28) * (1 - (h div 28) * (29 div (h + 1)) * ((21 - g) div 11))
       \<and> h - (h div 28) * (1 - (h div 28) * (29 div (h + 1)) * ((21 - g) div 11)) \<le> 28"
proof -
  consider "h < 28" | "h = 28" | "h = 29" using assms by linarith
  then show ?thesis
  proof cases
    case 1
    then have "h div 28 = 0" using assms by simp
    then show ?thesis using 1 assms by simp
  next
    case 2
    have "(21 - g) div 11 = 0 \<or> (21 - g) div 11 = 1"
    proof (cases "g \<le> 10")
      case True
      then have "(21 - g) div 11 = 1"
        using assms int_div_pos_eq [of "21 - g" 11 1 "10 - g"] by simp
      then show ?thesis by simp
    next
      case False
      then have "(21 - g) div 11 = 0" using assms by simp
      then show ?thesis by simp
    qed
    then show ?thesis unfolding 2 by auto
  next
    case 3
    then show ?thesis by simp
  qed
qed

lemma easter_i_range: "0 \<le> easter_i y \<and> easter_i y \<le> 28"
  unfolding easter_i_def Let_def
  by (rule easter_i_aux) simp_all

lemma easter_p_range: "- 6 \<le> easter_p y \<and> easter_p y \<le> 28"
proof -
  let ?j = "(y + y div 4 + easter_i y + 2 - y div 100 + y div 100 div 4) mod 7"
  have "0 \<le> ?j" "?j < 7" by simp_all
  then show ?thesis
    using easter_i_range [of y] unfolding easter_p_def Let_def by linarith
qed

lemma easter_unfold:
  "easter y = date y (3 + (easter_p y + 26) div 30)
                     (1 + (easter_p y + 27 + (easter_p y + 6) div 40) mod 31)"
  unfolding easter_def easter_p_def easter_i_def Let_def
  by (simp only: add_0_right)

lemma easter_month_day:
  fixes p :: int
  assumes "- 6 \<le> p" "p \<le> 28"
  shows "3 + (p + 26) div 30 = (if p < 4 then 3 else 4)"
    and "1 + (p + 27 + (p + 6) div 40) mod 31 = (if p < 4 then 28 + p else p - 3)"
proof -
  have a: "(p + 6) div 40 = 0" using assms by simp
  show "3 + (p + 26) div 30 = (if p < 4 then 3 else 4)"
  proof (cases "p < 4")
    case True
    then have "(p + 26) div 30 = 0" using assms by simp
    then show ?thesis using True by simp
  next
    case False
    then have "(p + 26) div 30 = 1"
      using assms int_div_pos_eq [of "p + 26" 30 1 "p - 4"] by simp
    then show ?thesis using False by simp
  qed
  show "1 + (p + 27 + (p + 6) div 40) mod 31 = (if p < 4 then 28 + p else p - 3)"
  proof (cases "p < 4")
    case True
    then have "(p + 27) mod 31 = p + 27" using assms by simp
    then show ?thesis using True a by simp
  next
    case False
    then have "(p + 27) mod 31 = p - 4"
      using assms int_mod_pos_eq [of "p + 27" 31 1 "p - 4"] by simp
    then show ?thesis using False a by simp
  qed
qed

lemma easter_ok:
  assumes "1 \<le> y" "y \<le> 9999"
  shows "easter y = Inr (easter_date y)"
proof -
  have r: "- 6 \<le> easter_p y" "easter_p y \<le> 28" using easter_p_range [of y] by simp_all
  show ?thesis
    unfolding easter_unfold easter_month_day [OF r] easter_date_def
    using assms r
    by (simp add: date_def fits_c_int_def MINYEAR_def MAXYEAR_def days_in_month_def
          DAYS_IN_MONTH_def)
qed

lemma easter_bad:
  assumes "\<not> (1 \<le> y \<and> y \<le> 9999)"
  shows "easter y = Inl (range_error y)"
proof -
  have r: "- 6 \<le> easter_p y" "easter_p y \<le> 28" using easter_p_range [of y] by simp_all
  show ?thesis
    unfolding easter_unfold easter_month_day [OF r]
    using assms r
    by (simp add: date_def fits_c_int_def range_error_def MINYEAR_def MAXYEAR_def)
qed

lemma toordinal_easter:
  "toordinal (easter_date y)
     = 365 * (y - 1) + y div 4 - y div 100 + y div 100 div 4 + 87 + easter_p y"
proof -
  have "toordinal (easter_date y)
          = days_before_year y + (if is_leap y then 1 else 0) + 87 + easter_p y"
    by (simp add: toordinal_def easter_date_def ymd2ord_def days_before_month_def
          DAYS_BEFORE_MONTH_def)
  then show ?thesis using leap_days [of y] by simp
qed

lemma easter_is_sunday: "weekday (easter_date y) = 6"
proof -
  define A where "A = y div 4 - y div 100 + y div 100 div 4 + easter_i y"
  have p: "easter_p y = easter_i y - (y + 2 + A) mod 7"
    unfolding easter_p_def Let_def A_def by (simp add: algebra_simps)
  have "toordinal (easter_date y) + 6 = 7 * (52 * y - 40) + 6 + ((y + 2 + A) - (y + 2 + A) mod 7)"
    unfolding toordinal_easter p A_def by (simp add: algebra_simps)
  also have "\<dots> = 7 * (52 * y - 40) + 6 + 7 * ((y + 2 + A) div 7)"
    by (simp add: minus_mod_eq_mult_div)
  also have "\<dots> = 6 + 7 * (52 * y - 40 + (y + 2 + A) div 7)" by (simp add: algebra_simps)
  finally have "(toordinal (easter_date y) + 6) mod 7 = 6 mod 7"
    by (simp only: mod_mult_self2)
  then show ?thesis by (simp add: weekday_def)
qed

lemma days_before_year_bounds:
  fixes y :: int
  assumes "1 \<le> y" "y \<le> 9999"
  shows "0 \<le> 365 * (y - 1) + y div 4 - y div 100 + y div 100 div 4"
    and "365 * (y - 1) + y div 4 - y div 100 + y div 100 div 4 \<le> 3651794"
proof -
  have a: "y div 100 \<le> y div 4"
    using assms zdiv_mono2 [of y 4 100] by simp
  have b: "0 \<le> y div 100 div 4" using assms by (simp add: pos_imp_zdiv_nonneg_iff)
  have c: "y div 4 \<le> 2499" using assms zdiv_mono1 [of y 9999 4] by simp
  have d: "y div 100 div 4 \<le> 24"
    using assms zdiv_mono1 [of y 9999 100] zdiv_mono1 [of "y div 100" 99 4] by simp
  have e: "0 \<le> y div 100" using assms by (simp add: pos_imp_zdiv_nonneg_iff)
  have lo: "q100 \<le> q4 \<Longrightarrow> 0 \<le> q400
              \<Longrightarrow> 0 \<le> 365 * (y - 1) + q4 - q100 + q400" for q4 q100 q400 :: int
    using assms by simp
  have hi: "q4 \<le> 2499 \<Longrightarrow> q400 \<le> 24 \<Longrightarrow> 0 \<le> q100
              \<Longrightarrow> 365 * (y - 1) + q4 - q100 + q400 \<le> 3651794" for q4 q100 q400 :: int
    using assms by simp
  show "0 \<le> 365 * (y - 1) + y div 4 - y div 100 + y div 100 div 4"
    by (rule lo [OF a b])
  show "365 * (y - 1) + y div 4 - y div 100 + y div 100 div 4 \<le> 3651794"
    by (rule hi [OF c d e])
qed

lemma toordinal_easter_bounds:
  assumes "1 \<le> y" "y \<le> 9999"
  shows "81 \<le> toordinal (easter_date y)" "toordinal (easter_date y) \<le> 3651909"
proof -
  have g: "0 \<le> b \<Longrightarrow> b \<le> 3651794 \<Longrightarrow> - 6 \<le> p \<and> p \<le> 28
             \<Longrightarrow> 81 \<le> b + 87 + p \<and> b + 87 + p \<le> 3651909" for b p :: int
    by simp
  show "81 \<le> toordinal (easter_date y)" "toordinal (easter_date y) \<le> 3651909"
    using g [OF days_before_year_bounds [OF assms] easter_p_range [of y]]
    unfolding toordinal_easter by simp_all
qed

lemma month_guess:
  fixes e :: int
  assumes "0 \<le> e" "e \<le> 364"
  shows "1 \<le> (e + 50) div 32 \<and> (e + 50) div 32 \<le> 12"
proof -
  have "50 div 32 \<le> (e + 50) div (32::int)" using assms by (intro zdiv_mono1) simp_all
  moreover have "(e + 50) div 32 \<le> 414 div (32::int)" using assms by (intro zdiv_mono1) simp_all
  ultimately show ?thesis by simp
qed

lemma in_year:
  fixes e :: int
  assumes "0 \<le> e" "1 \<le> m" "m \<le> 12"
  shows "(case (let preceding = DAYS_BEFORE_MONTH ! nat m + (if m > 2 \<and> L then 1 else 0)
           in if preceding > e
              then (m - 1, preceding
                      - (DAYS_IN_MONTH ! nat (m - 1) + (if m - 1 = 2 \<and> L then 1 else 0)))
              else (m, preceding)) of
          (m', preceding') \<Rightarrow>
             DAYS_BEFORE_MONTH ! nat m' + (if m' > 2 \<and> L then 1 else 0) + (e - preceding' + 1))
         = e + 1"
proof -
  have "m = 1 \<or> m = 2 \<or> m = 3 \<or> m = 4 \<or> m = 5 \<or> m = 6
      \<or> m = 7 \<or> m = 8 \<or> m = 9 \<or> m = 10 \<or> m = 11 \<or> m = 12"
    using assms(2,3) by presburger
  then show ?thesis
    using assms(1)
    by (elim disjE) (simp_all add: DAYS_BEFORE_MONTH_def DAYS_IN_MONTH_def Let_def)
qed

lemma cycle_divs:
  fixes a b c d :: int
  assumes "0 \<le> b" "b \<le> 3" "0 \<le> c" "c \<le> 24" "0 \<le> d" "d \<le> 3"
  defines "y \<equiv> 400 * a + 100 * b + 4 * c + d"
  shows "y div 4 = 100 * a + 25 * b + c" "y div 100 = 4 * a + b" "y div 400 = a"
proof -
  show "y div 4 = 100 * a + 25 * b + c"
    using assms(1-6) int_div_pos_eq [of y 4 "100 * a + 25 * b + c" d] by (simp add: y_def)
  show "y div 100 = 4 * a + b"
    using assms(1-6) int_div_pos_eq [of y 100 "4 * a + b" "4 * c + d"] by (simp add: y_def)
  show "y div 400 = a"
    using assms(1-6) int_div_pos_eq [of y 400 a "100 * b + 4 * c + d"] by (simp add: y_def)
qed

lemma cycle_days:
  fixes a b c d :: int
  assumes "0 \<le> b" "b \<le> 3" "0 \<le> c" "c \<le> 24" "0 \<le> d" "d \<le> 3"
  shows "days_before_year (400 * a + 100 * b + 4 * c + d + 1)
           = 146097 * a + 36524 * b + 1461 * c + 365 * d"
  unfolding days_before_year_def Let_def
  using cycle_divs [OF assms, of a] by simp

lemma cycle_leap:
  fixes a b c d :: int
  assumes "0 \<le> b" "b \<le> 3" "0 \<le> c" "c \<le> 24" "0 \<le> d" "d \<le> 3"
  shows "is_leap (400 * a + 100 * b + 4 * c + d + 1) \<longleftrightarrow> d = 3 \<and> (c \<noteq> 24 \<or> b = 3)"
proof -
  let ?y = "400 * a + 100 * b + 4 * c + d + 1"
  show ?thesis
  proof (cases "d = 3")
    case False
    then have "?y mod 4 = d + 1"
      using assms int_mod_pos_eq [of ?y 4 "100 * a + 25 * b + c" "d + 1"] by simp
    then show ?thesis using False assms by (simp add: is_leap_def)
  next
    case d3: True
    have m4: "?y mod 4 = 0"
      using int_mod_pos_eq [of ?y 4 "100 * a + 25 * b + c + 1" 0] by (simp add: d3)
    show ?thesis
    proof (cases "c = 24")
      case False
      then have "?y mod 100 = 4 * c + 4"
        using assms int_mod_pos_eq [of ?y 100 "4 * a + b" "4 * c + 4"] by (simp add: d3)
      then show ?thesis using False d3 m4 assms by (simp add: is_leap_def)
    next
      case c24: True
      have m100: "?y mod 100 = 0"
        using int_mod_pos_eq [of ?y 100 "4 * a + b + 1" 0] by (simp add: d3 c24)
      show ?thesis
      proof (cases "b = 3")
        case True
        have "?y mod 400 = 0"
          using int_mod_pos_eq [of ?y 400 "a + 1" 0] by (simp add: d3 c24 True)
        then show ?thesis using True d3 m4 by (simp add: is_leap_def)
      next
        case False
        then have "?y mod 400 = 100 * b + 100"
          using assms int_mod_pos_eq [of ?y 400 a "100 * b + 100"] by (simp add: d3 c24)
        then show ?thesis using False d3 c24 m100 assms by (simp add: is_leap_def)
      qed
    qed
  qed
qed

lemma ord_digits:
  fixes r r1 r2 b c d e :: int
  assumes "0 \<le> r" "r < 146097"
    and "r = 36524 * b + r1" "0 \<le> r1" "r1 < 36524"
    and "r1 = 1461 * c + r2" "0 \<le> r2" "r2 < 1461"
    and "r2 = 365 * d + e" "0 \<le> e" "e < 365"
  shows "0 \<le> b \<and> b \<le> 4" "0 \<le> c \<and> c \<le> 24" "0 \<le> d \<and> d \<le> 4"
    "b = 4 \<Longrightarrow> c = 0 \<and> d = 0 \<and> e = 0" "d = 4 \<Longrightarrow> e = 0 \<and> c \<le> 23"
proof -
  show b: "0 \<le> b \<and> b \<le> 4" using assms(1-5) by linarith
  have r1z: "b = 4 \<Longrightarrow> r1 = 0" using assms(1-5) by linarith
  show c: "0 \<le> c \<and> c \<le> 24" using assms(4-8) by linarith
  show d: "0 \<le> d \<and> d \<le> 4" using assms(7-11) by linarith
  have r2z: "r1 = 0 \<Longrightarrow> c = 0 \<and> r2 = 0" using assms(6-8) c by linarith
  have ez: "r2 = 0 \<Longrightarrow> d = 0 \<and> e = 0" using assms(9-11) d by linarith
  show "b = 4 \<Longrightarrow> c = 0 \<and> d = 0 \<and> e = 0" using r1z r2z ez by blast
  show "d = 4 \<Longrightarrow> e = 0 \<and> c \<le> 23" using assms(4-11) by linarith
qed

lemma toordinal_ord2ymd: "toordinal (ord2ymd n) = n"
proof -
  define N where "N = n - 1"
  define a where "a = N div 146097"
  define r where "r = N mod 146097"
  define b where "b = r div 36524"
  define r1 where "r1 = r mod 36524"
  define c where "c = r1 div 1461"
  define r2 where "r2 = r1 mod 1461"
  define d where "d = r2 div 365"
  define e where "e = r2 mod 365"
  define Y where "Y = 400 * a + 100 * b + 4 * c + d + 1"
  have rb: "0 \<le> r" "r < 146097" "0 \<le> r1" "r1 < 36524" "0 \<le> r2" "r2 < 1461" "0 \<le> e" "e < 365"
    by (simp_all add: r_def r1_def r2_def e_def)
  have eqs: "N = 146097 * a + r" "r = 36524 * b + r1" "r1 = 1461 * c + r2" "r2 = 365 * d + e"
    by (simp_all add: a_def r_def b_def r1_def c_def r2_def d_def e_def)
  note dg = ord_digits [OF rb(1,2) eqs(2) rb(3,4) eqs(3) rb(5,6) eqs(4) rb(7,8)]
  have Nsum: "n = 146097 * a + 36524 * b + 1461 * c + 365 * d + e + 1"
    using eqs N_def by linarith
  have unf: "ord2ymd n =
     (if d = 4 \<or> b = 4 then \<lparr>year = a * 400 + 1 + b * 100 + c * 4 + d - 1, month = 12, day = 31\<rparr>
      else (case (if DAYS_BEFORE_MONTH ! nat ((e + 50) div 32)
                       + (if (e + 50) div 32 > 2 \<and> (d = 3 \<and> (c \<noteq> 24 \<or> b = 3)) then 1 else 0) > e
                  then ((e + 50) div 32 - 1,
                        DAYS_BEFORE_MONTH ! nat ((e + 50) div 32)
                          + (if (e + 50) div 32 > 2 \<and> (d = 3 \<and> (c \<noteq> 24 \<or> b = 3)) then 1 else 0)
                          - (DAYS_IN_MONTH ! nat ((e + 50) div 32 - 1)
                              + (if (e + 50) div 32 - 1 = 2 \<and> (d = 3 \<and> (c \<noteq> 24 \<or> b = 3)) then 1 else 0)))
                  else ((e + 50) div 32,
                        DAYS_BEFORE_MONTH ! nat ((e + 50) div 32)
                          + (if (e + 50) div 32 > 2 \<and> (d = 3 \<and> (c \<noteq> 24 \<or> b = 3)) then 1 else 0))) of
              (m, preceding) \<Rightarrow>
                 \<lparr>year = a * 400 + 1 + b * 100 + c * 4 + d, month = m, day = e - preceding + 1\<rparr>))"
    unfolding ord2ymd_def Let_def DI400Y_def DI100Y_def DI4Y_def
      e_def d_def r2_def c_def r1_def b_def r_def a_def N_def
    by (rule refl)
  have yeq: "a * 400 + 1 + b * 100 + c * 4 + d = 400 * a + 100 * b + 4 * c + d + 1"
    by simp
  show ?thesis
  proof (cases "d = 4 \<or> b = 4")
    case True
    then consider "b = 4" | "d = 4" "b \<le> 3" using dg(1) by linarith
    then show ?thesis
    proof cases
      case 1
      then have z: "c = 0" "d = 0" "e = 0" using dg(4) by simp_all
      define Y' where "Y' = 400 * a + 100 * 3 + 4 * 24 + 3 + 1"
      have y: "a * 400 + 1 + b * 100 + c * 4 + d - 1 = Y'"
        by (simp add: 1 z Y'_def)
      have cd: "days_before_year Y' = 146097 * a + 36524 * 3 + 1461 * 24 + 365 * 3"
        unfolding Y'_def by (rule cycle_days) simp_all
      have cl: "is_leap Y'"
        unfolding Y'_def using cycle_leap [of 3 24 3 a] by simp
      have "toordinal (ord2ymd n)
              = days_before_year Y' + 334 + (if is_leap Y' then 1 else 0) + 31"
        unfolding unf y using True
        by (simp add: toordinal_def ymd2ord_def days_before_month_def DAYS_BEFORE_MONTH_def)
      then show ?thesis using Nsum cl by (simp add: cd 1 z)
    next
      case 2
      then have z: "e = 0" "c \<le> 23" using dg(5) by simp_all
      define Y' where "Y' = 400 * a + 100 * b + 4 * c + 3 + 1"
      have y: "a * 400 + 1 + b * 100 + c * 4 + d - 1 = Y'"
        by (simp add: 2 Y'_def)
      have cb: "0 \<le> b" "b \<le> 3" "0 \<le> c" "c \<le> 24" using dg(1,2) 2 z by simp_all
      have cd: "days_before_year Y' = 146097 * a + 36524 * b + 1461 * c + 365 * 3"
        unfolding Y'_def by (rule cycle_days [OF cb]) simp_all
      have cl: "is_leap Y'"
        unfolding Y'_def using cycle_leap [OF cb, of 3 a] z(2) by simp
      have "toordinal (ord2ymd n)
              = days_before_year Y' + 334 + (if is_leap Y' then 1 else 0) + 31"
        unfolding unf y using True
        by (simp add: toordinal_def ymd2ord_def days_before_month_def DAYS_BEFORE_MONTH_def)
      then show ?thesis using Nsum cl by (simp add: cd 2 z)
    qed
  next
    case False
    then have bd: "0 \<le> b" "b \<le> 3" "0 \<le> c" "c \<le> 24" "0 \<le> d" "d \<le> 3"
      using dg(1,2,3) by simp_all
    define L where "L \<longleftrightarrow> d = 3 \<and> (c \<noteq> 24 \<or> b = 3)"
    define Y' where "Y' = 400 * a + 100 * b + 4 * c + d + 1"
    have y: "a * 400 + 1 + b * 100 + c * 4 + d = Y'" by (simp add: Y'_def)
    have leap: "is_leap Y' = L"
      unfolding L_def Y'_def by (rule cycle_leap [OF bd])
    have cd: "days_before_year Y' = 146097 * a + 36524 * b + 1461 * c + 365 * d"
      unfolding Y'_def by (rule cycle_days [OF bd])
    have m: "1 \<le> (e + 50) div 32" "(e + 50) div 32 \<le> 12"
      using month_guess [of e] rb(7,8) by simp_all
    define X where "X =
       (if DAYS_BEFORE_MONTH ! nat ((e + 50) div 32)
             + (if (e + 50) div 32 > 2 \<and> L then 1 else 0) > e
        then ((e + 50) div 32 - 1,
              DAYS_BEFORE_MONTH ! nat ((e + 50) div 32)
                + (if (e + 50) div 32 > 2 \<and> L then 1 else 0)
                - (DAYS_IN_MONTH ! nat ((e + 50) div 32 - 1)
                    + (if (e + 50) div 32 - 1 = 2 \<and> L then 1 else 0)))
        else ((e + 50) div 32,
              DAYS_BEFORE_MONTH ! nat ((e + 50) div 32)
                + (if (e + 50) div 32 > 2 \<and> L then 1 else 0)))"
    have unf': "ord2ymd n = (case X of (m, preceding) \<Rightarrow>
                   \<lparr>year = Y', month = m, day = e - preceding + 1\<rparr>)"
      unfolding unf X_def L_def y using False by (simp only: if_False)
    have iy: "(case X of (m', preceding') \<Rightarrow>
                 DAYS_BEFORE_MONTH ! nat m' + (if m' > 2 \<and> L then 1 else 0)
                   + (e - preceding' + 1)) = e + 1"
      unfolding X_def using in_year [OF rb(7) m, of L] by (simp only: Let_def)
    obtain m' p' where Xeq: "X = (m', p')" by (cases X)
    have o: "ord2ymd n = \<lparr>year = Y', month = m', day = e - p' + 1\<rparr>"
      unfolding unf' Xeq by (simp only: prod.case)
    have iy': "DAYS_BEFORE_MONTH ! nat m' + (if m' > 2 \<and> L then 1 else 0) + (e - p' + 1) = e + 1"
      using iy unfolding Xeq by (simp only: prod.case)
    have "toordinal (ord2ymd n)
            = days_before_year Y'
              + (DAYS_BEFORE_MONTH ! nat m' + (if m' > 2 \<and> L then 1 else 0)) + (e - p' + 1)"
      unfolding o toordinal_def ymd2ord_def days_before_month_def
      by (simp only: date.simps leap)
    then have "toordinal (ord2ymd n) = days_before_year Y' + (e + 1)"
      using iy' by (simp only: add.assoc)
    then show ?thesis
      using Nsum by (simp add: cd)
  qed
qed

text \<open>The date of an ordinal in range is one that the constructor accepts.\<close>

lemma in_month:
  fixes e m :: int
  assumes "0 \<le> e" "e \<le> 364" "32 * m \<le> e + 50" "e + 50 < 32 * m + 32"
  shows "(case (let preceding = DAYS_BEFORE_MONTH ! nat m + (if m > 2 \<and> L then 1 else 0)
           in if preceding > e
              then (m - 1, preceding
                      - (DAYS_IN_MONTH ! nat (m - 1) + (if m - 1 = 2 \<and> L then 1 else 0)))
              else (m, preceding)) of
          (m', preceding') \<Rightarrow>
             1 \<le> m' \<and> m' \<le> 12 \<and> 1 \<le> e - preceding' + 1
             \<and> e - preceding' + 1 \<le> (if m' = 2 \<and> L then 29 else DAYS_IN_MONTH ! nat m')
             \<and> e - preceding' + 1 \<le> 31)"
proof -
  have b: "1 \<le> m" "m \<le> 12" using assms by linarith+
  have "m = 1 \<or> m = 2 \<or> m = 3 \<or> m = 4 \<or> m = 5 \<or> m = 6
      \<or> m = 7 \<or> m = 8 \<or> m = 9 \<or> m = 10 \<or> m = 11 \<or> m = 12"
    using b by presburger
  then show ?thesis
  proof (elim disjE)
    assume "m = 1" then show ?thesis using assms
      by (simp add: DAYS_BEFORE_MONTH_def DAYS_IN_MONTH_def Let_def)
  next
    assume "m = 2" then show ?thesis using assms
      by (simp add: DAYS_BEFORE_MONTH_def DAYS_IN_MONTH_def Let_def)
  next
    assume "m = 3" then show ?thesis using assms
      by (simp add: DAYS_BEFORE_MONTH_def DAYS_IN_MONTH_def Let_def)
  next
    assume "m = 4" then show ?thesis using assms
      by (simp add: DAYS_BEFORE_MONTH_def DAYS_IN_MONTH_def Let_def)
  next
    assume "m = 5" then show ?thesis using assms
      by (simp add: DAYS_BEFORE_MONTH_def DAYS_IN_MONTH_def Let_def)
  next
    assume "m = 6" then show ?thesis using assms
      by (simp add: DAYS_BEFORE_MONTH_def DAYS_IN_MONTH_def Let_def)
  next
    assume "m = 7" then show ?thesis using assms
      by (simp add: DAYS_BEFORE_MONTH_def DAYS_IN_MONTH_def Let_def)
  next
    assume "m = 8" then show ?thesis using assms
      by (simp add: DAYS_BEFORE_MONTH_def DAYS_IN_MONTH_def Let_def)
  next
    assume "m = 9" then show ?thesis using assms
      by (simp add: DAYS_BEFORE_MONTH_def DAYS_IN_MONTH_def Let_def)
  next
    assume "m = 10" then show ?thesis using assms
      by (simp add: DAYS_BEFORE_MONTH_def DAYS_IN_MONTH_def Let_def)
  next
    assume "m = 11" then show ?thesis using assms
      by (simp add: DAYS_BEFORE_MONTH_def DAYS_IN_MONTH_def Let_def)
  next
    assume "m = 12" then show ?thesis using assms
      by (simp add: DAYS_BEFORE_MONTH_def DAYS_IN_MONTH_def Let_def)
  qed
qed

lemma ord2ymd_valid:
  assumes "1 \<le> n" "n \<le> 3652059"
  shows "date (year (ord2ymd n)) (month (ord2ymd n)) (day (ord2ymd n)) = Inr (ord2ymd n)"
proof -
  define N where "N = n - 1"
  define a where "a = N div 146097"
  define r where "r = N mod 146097"
  define b where "b = r div 36524"
  define r1 where "r1 = r mod 36524"
  define c where "c = r1 div 1461"
  define r2 where "r2 = r1 mod 1461"
  define d where "d = r2 div 365"
  define e where "e = r2 mod 365"
  have rb: "0 \<le> r" "r < 146097" "0 \<le> r1" "r1 < 36524" "0 \<le> r2" "r2 < 1461" "0 \<le> e" "e < 365"
    by (simp_all add: r_def r1_def r2_def e_def)
  have eqs: "N = 146097 * a + r" "r = 36524 * b + r1" "r1 = 1461 * c + r2" "r2 = 365 * d + e"
    by (simp_all add: a_def r_def b_def r1_def c_def r2_def d_def e_def)
  note dg = ord_digits [OF rb(1,2) eqs(2) rb(3,4) eqs(3) rb(5,6) eqs(4) rb(7,8)]
  have Nb: "0 \<le> N" "N \<le> 3652058" using assms by (simp_all add: N_def)
  have a0: "0 \<le> a" using Nb(1) by (simp add: a_def pos_imp_zdiv_nonneg_iff)
  have "N div 146097 \<le> 3652058 div 146097" using Nb(2) by (intro zdiv_mono1) simp_all
  then have a24: "a \<le> 24" by (simp add: a_def)
  have ra: "a = 24 \<Longrightarrow> r \<le> 145730" using eqs(1) Nb(2) by linarith
  have unf: "ord2ymd n =
     (if d = 4 \<or> b = 4 then \<lparr>year = a * 400 + 1 + b * 100 + c * 4 + d - 1, month = 12, day = 31\<rparr>
      else (case (if DAYS_BEFORE_MONTH ! nat ((e + 50) div 32)
                       + (if (e + 50) div 32 > 2 \<and> (d = 3 \<and> (c \<noteq> 24 \<or> b = 3)) then 1 else 0) > e
                  then ((e + 50) div 32 - 1,
                        DAYS_BEFORE_MONTH ! nat ((e + 50) div 32)
                          + (if (e + 50) div 32 > 2 \<and> (d = 3 \<and> (c \<noteq> 24 \<or> b = 3)) then 1 else 0)
                          - (DAYS_IN_MONTH ! nat ((e + 50) div 32 - 1)
                              + (if (e + 50) div 32 - 1 = 2 \<and> (d = 3 \<and> (c \<noteq> 24 \<or> b = 3)) then 1 else 0)))
                  else ((e + 50) div 32,
                        DAYS_BEFORE_MONTH ! nat ((e + 50) div 32)
                          + (if (e + 50) div 32 > 2 \<and> (d = 3 \<and> (c \<noteq> 24 \<or> b = 3)) then 1 else 0))) of
              (m, preceding) \<Rightarrow>
                 \<lparr>year = a * 400 + 1 + b * 100 + c * 4 + d, month = m, day = e - preceding + 1\<rparr>))"
    unfolding ord2ymd_def Let_def DI400Y_def DI100Y_def DI4Y_def
      e_def d_def r2_def c_def r1_def b_def r_def a_def N_def
    by (rule refl)
  show ?thesis
  proof (cases "d = 4 \<or> b = 4")
    case True
    define Y where "Y = a * 400 + 1 + b * 100 + c * 4 + d - 1"
    have o: "ord2ymd n = \<lparr>year = Y, month = 12, day = 31\<rparr>"
      unfolding unf Y_def using True by (simp only: if_True)
    have "1 \<le> Y \<and> Y \<le> 9999"
    proof (cases "b = 4")
      case b4: True
      then have z: "c = 0" "d = 0" "e = 0" using dg(4) by simp_all
      have "r = 146096" using eqs(2,3,4) b4 z by simp
      then have "a \<le> 23" using ra a24 by linarith
      then show ?thesis using a0 b4 z by (simp add: Y_def)
    next
      case False
      then have "d = 4" "b \<le> 3" using True dg(1) by simp_all
      moreover have "c \<le> 23" using dg(5) \<open>d = 4\<close> by simp
      ultimately show ?thesis using a0 a24 dg(1,2) unfolding Y_def by linarith
    qed
    then show ?thesis
      unfolding o
      by (simp add: date_def fits_c_int_def MINYEAR_def MAXYEAR_def days_in_month_def
            DAYS_IN_MONTH_def)
  next
    case False
    then have bd: "0 \<le> b" "b \<le> 3" "0 \<le> c" "c \<le> 24" "0 \<le> d" "d \<le> 3"
      using dg(1,2,3) by simp_all
    define L where "L \<longleftrightarrow> d = 3 \<and> (c \<noteq> 24 \<or> b = 3)"
    define Y' where "Y' = 400 * a + 100 * b + 4 * c + d + 1"
    have y: "a * 400 + 1 + b * 100 + c * 4 + d = Y'" by (simp add: Y'_def)
    have leap: "is_leap Y' = L"
      unfolding L_def Y'_def by (rule cycle_leap [OF bd])
    have yb: "1 \<le> Y'" "Y' \<le> 9999"
    proof -
      show "1 \<le> Y'" using a0 bd unfolding Y'_def by linarith
      show "Y' \<le> 9999"
      proof (cases "a = 24")
        case False
        then have "a \<le> 23" using a24 by simp
        then show ?thesis using bd unfolding Y'_def by linarith
      next
        case True
        have "\<not> (b = 3 \<and> c = 24 \<and> d = 3)"
          using ra [OF True] eqs(2,3,4) rb(7) by linarith
        then have "100 * b + 4 * c + d \<le> 398" using bd by linarith
        then show ?thesis using True unfolding Y'_def by linarith
      qed
    qed
    define m where "m = (e + 50) div 32"
    have mm: "32 * m \<le> e + 50" "e + 50 < 32 * m + 32"
    proof -
      have "e + 50 = 32 * m + (e + 50) mod 32" by (simp add: m_def)
      moreover have "0 \<le> (e + 50) mod 32" "(e + 50) mod 32 < 32" by simp_all
      ultimately show "32 * m \<le> e + 50" "e + 50 < 32 * m + 32" by linarith+
    qed
    have e364: "e \<le> 364" using rb(8) by simp
    define X where "X =
       (if DAYS_BEFORE_MONTH ! nat m + (if m > 2 \<and> L then 1 else 0) > e
        then (m - 1,
              DAYS_BEFORE_MONTH ! nat m + (if m > 2 \<and> L then 1 else 0)
                - (DAYS_IN_MONTH ! nat (m - 1) + (if m - 1 = 2 \<and> L then 1 else 0)))
        else (m, DAYS_BEFORE_MONTH ! nat m + (if m > 2 \<and> L then 1 else 0)))"
    have unf': "ord2ymd n = (case X of (m, preceding) \<Rightarrow>
                   \<lparr>year = Y', month = m, day = e - preceding + 1\<rparr>)"
      unfolding unf X_def L_def y m_def using False by (simp only: if_False)
    have im: "(case X of (m', preceding') \<Rightarrow>
                 1 \<le> m' \<and> m' \<le> 12 \<and> 1 \<le> e - preceding' + 1
                 \<and> e - preceding' + 1 \<le> (if m' = 2 \<and> L then 29 else DAYS_IN_MONTH ! nat m')
                 \<and> e - preceding' + 1 \<le> 31)"
      unfolding X_def using in_month [OF rb(7) e364 mm, of L] by (simp only: Let_def)
    obtain m' p' where Xeq: "X = (m', p')" by (cases X)
    have o: "ord2ymd n = \<lparr>year = Y', month = m', day = e - p' + 1\<rparr>"
      unfolding unf' Xeq by (simp only: prod.case)
    have im': "1 \<le> m'" "m' \<le> 12" "1 \<le> e - p' + 1"
      "e - p' + 1 \<le> (if m' = 2 \<and> L then 29 else DAYS_IN_MONTH ! nat m')" "e - p' + 1 \<le> 31"
      using im unfolding Xeq by (simp_all only: prod.case)
    have dim: "e - p' + 1 \<le> days_in_month Y' m'"
      using im'(4) unfolding days_in_month_def leap .
    show ?thesis
      unfolding o using yb im'(1,2,3,5) dim
      by (simp add: date_def fits_c_int_def MINYEAR_def MAXYEAR_def)
  qed
qed

subsection \<open>Running statements\<close>

lemma bindE_Inr [simp]: "bindE (Inr x) f = f x"
  by (simp add: bindE_def)

lemma bindE_Inl [simp]: "bindE (Inl e) f = Inl e"
  by (simp add: bindE_def)

lemma run_append: "run (xs @ ys) st = bindE (run xs st) (run ys)"
  by (induction xs arbitrary: st) (auto simp: bindE_def split: sum.splits)

lemma emit_Nil [simp]: "emit [] st = st"
  by (simp add: emit_def)

lemma emit_emit [simp]: "emit es' (emit es st) = emit (es @ es') st"
  by (simp add: emit_def)

lemma uuids_emit [simp]: "uuids (emit es st) = uuids st + length es"
  by (simp add: emit_def)

lemma add_event_Inr:
  "add_event U mk (Inr dt) st = Inr (emit [mk (U (uuids st)) dt] st)"
  by (simp add: add_event_def emit_def add_component_def)

lemma add_event_Inl: "add_event U mk (Inl e) st = Inl e"
  by (simp add: add_event_def)

lemma date_in_range:
  assumes "1 \<le> y" "y \<le> 9999"
  shows "date y 1 1 = Inr \<lparr>year = y, month = 1, day = 1\<rparr>"
    "date y 1 5 = Inr \<lparr>year = y, month = 1, day = 5\<rparr>"
    "date y 1 6 = Inr \<lparr>year = y, month = 1, day = 6\<rparr>"
    "date y 4 30 = Inr \<lparr>year = y, month = 4, day = 30\<rparr>"
    "date y 5 1 = Inr \<lparr>year = y, month = 5, day = 1\<rparr>"
    "date y 6 6 = Inr \<lparr>year = y, month = 6, day = 6\<rparr>"
    "date y 12 24 = Inr \<lparr>year = y, month = 12, day = 24\<rparr>"
    "date y 12 25 = Inr \<lparr>year = y, month = 12, day = 25\<rparr>"
    "date y 12 26 = Inr \<lparr>year = y, month = 12, day = 26\<rparr>"
    "date y 12 31 = Inr \<lparr>year = y, month = 12, day = 31\<rparr>"
  using assms
  by (simp_all add: date_def fits_c_int_def MINYEAR_def MAXYEAR_def days_in_month_def
        DAYS_IN_MONTH_def)

lemma date_out_of_range:
  "\<not> (1 \<le> y \<and> y \<le> 9999) \<Longrightarrow> date y 1 1 = Inl (range_error y)"
  by (simp add: date_def fits_c_int_def range_error_def MINYEAR_def MAXYEAR_def)

lemma range_error_in_range [simp]:
  "- 2147483648 \<le> y \<Longrightarrow> y < 2147483648 \<Longrightarrow> range_error y = ValueError"
  by (simp add: range_error_def fits_c_int_def)

lemma date_add_easter:
  assumes "1 \<le> y" "y \<le> 9999" "- 3 \<le> k" "k \<le> 49"
  shows "date_add (easter_date y) k = Inr (days_after (easter_date y) k)"
proof -
  have "0 < toordinal (easter_date y) + k" "toordinal (easter_date y) + k \<le> 3652059"
    using toordinal_easter_bounds [OF assms(1,2)] assms(3,4) by simp_all
  then show ?thesis
    by (simp add: date_add_def days_after_def MAXORDINAL_def Let_def)
qed

lemma add_easter_in_range:
  assumes "1 \<le> y" "y \<le> 9999"
  shows "add_easter U y st = Inr (emit (easter_events U (uuids st) y) st)"
proof -
  have a: "date_sub (easter_date y) (timedelta 3 0) = Inr (days_after (easter_date y) (- 3))"
    "date_sub (easter_date y) (timedelta 2 0) = Inr (days_after (easter_date y) (- 2))"
    "date_sub (easter_date y) (timedelta 1 0) = Inr (days_after (easter_date y) (- 1))"
    "date_add (easter_date y) (timedelta 1 0) = Inr (days_after (easter_date y) 1)"
    "date_add (easter_date y) (timedelta 4 5) = Inr (days_after (easter_date y) 39)"
    "date_add (easter_date y) (timedelta 6 6) = Inr (days_after (easter_date y) 48)"
    "date_add (easter_date y) (timedelta 0 7) = Inr (days_after (easter_date y) 49)"
    by (simp_all add: date_sub_def timedelta_def date_add_easter [OF assms])
  show ?thesis
    unfolding add_easter_def easter_ok [OF assms] bindE_Inr a
    by (simp add: add_event_Inr easter_events_def eval_nat_numeral)
qed

lemma add_easter_out_of_range:
  "\<not> (1 \<le> y \<and> y \<le> 9999) \<Longrightarrow> add_easter U y st = Inl (range_error y)"
  by (simp add: add_easter_def easter_bad)

lemma length_easter_events [simp]: "length (easter_events U n y) = 8"
  by (simp add: easter_events_def)

lemma all_easter_events_nonpos: "c \<le> 0 \<Longrightarrow> all_easter_events U n sy c = []"
  by (simp add: all_easter_events_def)

lemma all_easter_events_Suc:
  "all_easter_events U n sy (int (Suc k))
     = all_easter_events U n sy (int k) @ easter_events U (n + 8 * k) (sy + int k)"
proof -
  have "[0..int (Suc k) - 1] = [0..int k - 1] @ [int k]"
    using upto_rec2 [of 0 "int k"] by simp
  then show ?thesis by (simp add: all_easter_events_def)
qed

lemma length_all_easter_events_nat: "length (all_easter_events U n sy (int k)) = 8 * k"
  by (induction k) (simp_all add: all_easter_events_nonpos all_easter_events_Suc del: of_nat_Suc)

lemma length_all_easter_events: "length (all_easter_events U n sy c) = 8 * nat c"
proof (cases "c \<le> 0")
  case True
  then show ?thesis by (simp add: all_easter_events_nonpos)
next
  case False
  then have "c = int (nat c)" by simp
  then show ?thesis using length_all_easter_events_nat [of U n sy "nat c"] by simp
qed

lemma run_easters_nat:
  assumes "1 \<le> sy" "sy + int k \<le> 10000"
  shows "run (map (\<lambda>i. add_easter U (sy + i)) [0..int k - 1]) st
           = Inr (emit (all_easter_events U (uuids st) sy (int k)) st)"
  using assms(2)
proof (induction k)
  case 0
  then show ?case by (simp add: all_easter_events_nonpos)
next
  case (Suc k)
  have split: "[0..int (Suc k) - 1] = [0..int k - 1] @ [int k]"
    using upto_rec2 [of 0 "int k"] by simp
  have yr: "1 \<le> sy + int k" "sy + int k \<le> 9999" using assms(1) Suc.prems by simp_all
  have IH: "run (map (\<lambda>i. add_easter U (sy + i)) [0..int k - 1]) st
              = Inr (emit (all_easter_events U (uuids st) sy (int k)) st)"
    using Suc by simp
  show ?case
    unfolding split map_append run_append IH bindE_Inr all_easter_events_Suc
    by (simp add: add_easter_in_range [OF yr] length_all_easter_events_nat)
qed

lemma run_easters:
  assumes "1 \<le> sy" "sy + c \<le> 10000"
  shows "run (map (\<lambda>i. add_easter U (sy + i)) [0..c - 1]) st
           = Inr (emit (all_easter_events U (uuids st) sy c) st)"
proof (cases "c \<le> 0")
  case True
  then show ?thesis by (simp add: all_easter_events_nonpos)
next
  case False
  then have c: "c = int (nat c)" by simp
  show ?thesis
    using run_easters_nat [of sy "nat c" U st] assms c by simp
qed

lemma run_easters_overflow:
  assumes "1 \<le> sy" "sy \<le> 9999" "10000 < sy + c"
  shows "run (map (\<lambda>i. add_easter U (sy + i)) [0..c - 1]) st = Inl ValueError"
proof -
  define i where "i = 10000 - sy"
  have i: "1 \<le> i" "i \<le> c - 1" using assms by (simp_all add: i_def)
  have "[0..c - 1] = [0..i - 1] @ [i..c - 1]"
    using upto_split1 [of 0 i "c - 1"] i by simp
  also have "[i..c - 1] = i # [i + 1..c - 1]"
    using upto_rec1 [of i "c - 1"] i by simp
  finally have split: "[0..c - 1] = [0..i - 1] @ i # [i + 1..c - 1]" .
  have first: "run (map (\<lambda>i. add_easter U (sy + i)) [0..i - 1]) st
                 = Inr (emit (all_easter_events U (uuids st) sy i) st)"
  proof (rule run_easters)
    show "1 \<le> sy" by (rule assms(1))
    show "sy + i \<le> 10000" by (simp add: i_def)
  qed
  have bad: "add_easter U (sy + i) st' = Inl ValueError" for st'
    using add_easter_out_of_range [of "sy + i" U st'] by (simp add: i_def)
  show ?thesis
    unfolding split map_append run_append first bindE_Inr
    by (simp add: bad)
qed

subsection \<open>The result of \<^verbatim>\<open>generate\<close>\<close>

lemma add_fixed_Inr:
  "date y m d = Inr dt \<Longrightarrow>
   add_fixed U y m d s work st = Inr (emit [FixedHoliday (U (uuids st)) dt s work] st)"
  by (simp add: add_fixed_def add_event_Inr)

lemma add_fixed_out_of_range:
  "\<not> (1 \<le> y \<and> y \<le> 9999) \<Longrightarrow> add_fixed U y 1 1 s work st = Inl (range_error y)"
  by (simp add: add_fixed_def date_out_of_range add_event_Inl)

lemma run_head:
  assumes "1 \<le> y" "y \<le> 9999" "uuids st = 0"
  shows "run [add_fixed U y 1 1 Nyarsdagen FREE,
              add_fixed U y 1 5 Trettondagsafton DEPENDS,
              add_fixed U y 1 6 Trettondedag_jul FREE] st
           = Inr (emit (head_events U y) st)"
  using assms(3)
  by (simp add: add_fixed_Inr [OF date_in_range(1) [OF assms(1,2)]]
        add_fixed_Inr [OF date_in_range(2) [OF assms(1,2)]]
        add_fixed_Inr [OF date_in_range(3) [OF assms(1,2)]] head_events_def eval_nat_numeral)

lemma run_tail:
  assumes "1 \<le> y" "y \<le> 9999"
  shows "run [add_fixed U y 4 30 Valborgsmassoafton DEPENDS,
              add_fixed U y 5 1 Forsta_maj FREE,
              add_fixed U y 6 6 Sveriges_nationaldag FREE,
              add_midsummers_eve U y,
              add_midsummer_day U y,
              add_all_saints_eve U y,
              add_all_saints_day U y,
              add_fixed U y 12 24 Julafton DEFACTO,
              add_fixed U y 12 25 Juldagen FREE,
              add_fixed U y 12 26 Annandag_jul FREE,
              add_fixed U y 12 31 Nyarsafton DEFACTO] st
           = Inr (emit (tail_events U (uuids st) y) st)"
  by (simp add: add_fixed_Inr [OF date_in_range(4) [OF assms]]
        add_fixed_Inr [OF date_in_range(5) [OF assms]]
        add_fixed_Inr [OF date_in_range(6) [OF assms]]
        add_fixed_Inr [OF date_in_range(7) [OF assms]]
        add_fixed_Inr [OF date_in_range(8) [OF assms]]
        add_fixed_Inr [OF date_in_range(9) [OF assms]]
        add_fixed_Inr [OF date_in_range(10) [OF assms]]
        add_midsummers_eve_def add_midsummer_day_def add_all_saints_eve_def
        add_all_saints_day_def date_in_range(1) [OF assms] add_event_Inr
        tail_events_def window_events_def eval_nat_numeral)

lemma upper_names: "upper ''prodid'' = ''PRODID''" "upper ''version'' = ''VERSION''"
  by code_simp+

lemma generate_in_range:
  assumes "in_range sy c"
  shows "generate U sy c = Inr (expected_calendar U sy c)"
proof -
  have r: "1 \<le> sy" "sy \<le> 9999" "sy + c \<le> 10000"
    using assms by (simp_all add: in_range_def)
  define st0 where
    "st0 = \<lparr>cal = add ''version'' ''2.0'' (add ''prodid'' prodid Calendar_new), uuids = 0\<rparr>"
  have u0: "uuids st0 = 0" by (simp add: st0_def)
  have "run (generate_stmts U sy c) st0
          = Inr (emit (tail_events U (3 + 8 * nat c) sy)
                  (emit (all_easter_events U 3 sy c) (emit (head_events U sy) st0)))"
    unfolding generate_stmts_def run_append run_head [OF r(1,2) u0] bindE_Inr
      run_easters [OF r(1,3)] run_tail [OF r(1,2)]
    by (simp add: u0 head_events_def length_all_easter_events eval_nat_numeral)
  then show ?thesis
    unfolding generate_def Let_def st0_def [symmetric]
    by (simp add: st0_def emit_def expected_calendar_def expected_events_def add_def
          upper_names Calendar_new_def)
qed

lemma generate_out_of_range:
  assumes "\<not> in_range sy c"
  shows "generate U sy c = Inl (range_error sy)"
proof (cases "1 \<le> sy \<and> sy \<le> 9999")
  case False
  then show ?thesis
    by (simp add: generate_def generate_stmts_def add_fixed_out_of_range)
next
  case True
  then have r: "1 \<le> sy" "sy \<le> 9999" "10000 < sy + c"
    using assms by (simp_all add: in_range_def)
  define st0 where
    "st0 = \<lparr>cal = add ''version'' ''2.0'' (add ''prodid'' prodid Calendar_new), uuids = 0\<rparr>"
  have u0: "uuids st0 = 0" by (simp add: st0_def)
  have "run (generate_stmts U sy c) st0 = Inl ValueError"
    unfolding generate_stmts_def run_append run_head [OF r(1,2) u0] bindE_Inr
      run_easters_overflow [OF r] bindE_Inl ..
  then show ?thesis
    unfolding generate_def Let_def st0_def [symmetric] using r(1,2) by simp
qed

lemma generate_Inr_iff:
  "generate U sy c = Inr doc \<longleftrightarrow> in_range sy c \<and> doc = expected_calendar U sy c"
  by (cases "in_range sy c") (auto simp: generate_in_range generate_out_of_range)

lemma generate_Inl_iff:
  "generate U sy c = Inl e \<longleftrightarrow> \<not> in_range sy c \<and> e = range_error sy"
  by (cases "in_range sy c") (auto simp: generate_in_range generate_out_of_range)

subsection \<open>Kinds of events in the result\<close>

lemma rrule_Holiday [simp]: "rrule (Holiday u dt s w) = None"
  by (simp add: Holiday_def Let_def)

lemma rrule_FixedHoliday [simp]:
  "rrule (FixedHoliday u dt s w)
     = Some \<lparr>FREQ = YEARLY, BYDAY = None, BYMONTHDAY = None, BYMONTH = None\<rparr>"
  by (simp add: FixedHoliday_def)

lemma kinds_Holiday [simp]:
  "\<not> recurring (Holiday u dt s w)" "\<not> weekday_window (Holiday u dt s w)"
  "\<not> fixed_date (Holiday u dt s w)"
  by (simp_all add: recurring_def weekday_window_def fixed_date_def)

lemma kinds_FixedHoliday [simp]:
  "recurring (FixedHoliday u dt s w)" "\<not> weekday_window (FixedHoliday u dt s w)"
  "fixed_date (FixedHoliday u dt s w)"
  by (simp_all add: recurring_def weekday_window_def fixed_date_def)

lemma kinds_window [simp]:
  "recurring (e\<lparr>rrule := Some midsummers_eve_rrule\<rparr>)"
  "recurring (e\<lparr>rrule := Some midsummer_day_rrule\<rparr>)"
  "recurring (e\<lparr>rrule := Some all_saints_eve_rrule\<rparr>)"
  "recurring (e\<lparr>rrule := Some all_saints_day_rrule\<rparr>)"
  "weekday_window (e\<lparr>rrule := Some midsummers_eve_rrule\<rparr>)"
  "weekday_window (e\<lparr>rrule := Some midsummer_day_rrule\<rparr>)"
  "weekday_window (e\<lparr>rrule := Some all_saints_eve_rrule\<rparr>)"
  "weekday_window (e\<lparr>rrule := Some all_saints_day_rrule\<rparr>)"
  "\<not> fixed_date (e\<lparr>rrule := Some midsummers_eve_rrule\<rparr>)"
  "\<not> fixed_date (e\<lparr>rrule := Some midsummer_day_rrule\<rparr>)"
  "\<not> fixed_date (e\<lparr>rrule := Some all_saints_eve_rrule\<rparr>)"
  "\<not> fixed_date (e\<lparr>rrule := Some all_saints_day_rrule\<rparr>)"
  by (simp_all add: recurring_def weekday_window_def fixed_date_def midsummers_eve_rrule_def
        midsummer_day_rrule_def all_saints_eve_rrule_def all_saints_day_rrule_def)

lemma easter_events_Holiday:
  "e \<in> set (easter_events U n y) \<Longrightarrow> \<exists>u dt s w. e = Holiday u dt s w"
  by (auto simp: easter_events_def)

lemma all_easter_events_Holiday:
  "e \<in> set (all_easter_events U n sy c) \<Longrightarrow> \<exists>u dt s w. e = Holiday u dt s w"
  by (auto simp: all_easter_events_def dest: easter_events_Holiday)

lemma filter_all_easter_events_none:
  assumes "\<And>u dt s w. \<not> P (Holiday u dt s w)"
  shows "filter P (all_easter_events U n sy c) = []"
  using assms all_easter_events_Holiday [of _ U n sy c]
  by (fastforce simp: filter_empty_conv)

lemma filter_all_easter_events_all:
  assumes "\<And>u dt s w. P (Holiday u dt s w)"
  shows "filter P (all_easter_events U n sy c) = all_easter_events U n sy c"
  using assms all_easter_events_Holiday [of _ U n sy c]
  by (fastforce simp: filter_id_conv)

lemma filter_recurring:
  "filter recurring (expected_events U sy c)
     = head_events U sy @ tail_events U (3 + 8 * nat c) sy"
  by (simp add: expected_events_def filter_all_easter_events_none)
     (simp add: head_events_def tail_events_def window_events_def)

lemma filter_not_recurring:
  "filter (\<lambda>e. \<not> recurring e) (expected_events U sy c) = all_easter_events U 3 sy c"
  by (simp add: expected_events_def filter_all_easter_events_all)
     (simp add: head_events_def tail_events_def window_events_def)

lemma filter_weekday_window:
  "filter weekday_window (expected_events U sy c) = window_events U (6 + 8 * nat c) sy"
  by (simp add: expected_events_def filter_all_easter_events_none)
     (simp add: head_events_def tail_events_def window_events_def)

lemma filter_fixed_date:
  "filter fixed_date (expected_events U sy c)
     = head_events U sy
       @ [FixedHoliday (U (3 + 8 * nat c)) \<lparr>year = sy, month = 4, day = 30\<rparr>
            Valborgsmassoafton DEPENDS,
          FixedHoliday (U (4 + 8 * nat c)) \<lparr>year = sy, month = 5, day = 1\<rparr> Forsta_maj FREE,
          FixedHoliday (U (5 + 8 * nat c)) \<lparr>year = sy, month = 6, day = 6\<rparr>
            Sveriges_nationaldag FREE,
          FixedHoliday (U (10 + 8 * nat c)) \<lparr>year = sy, month = 12, day = 24\<rparr> Julafton DEFACTO,
          FixedHoliday (U (11 + 8 * nat c)) \<lparr>year = sy, month = 12, day = 25\<rparr> Juldagen FREE,
          FixedHoliday (U (12 + 8 * nat c)) \<lparr>year = sy, month = 12, day = 26\<rparr>
            Annandag_jul FREE,
          FixedHoliday (U (13 + 8 * nat c)) \<lparr>year = sy, month = 12, day = 31\<rparr>
            Nyarsafton DEFACTO]"
  by (simp add: expected_events_def filter_all_easter_events_none)
     (simp add: head_events_def tail_events_def window_events_def add.commute)

lemma length_expected_events: "length (expected_events U sy c) = 14 + 8 * nat c"
  by (simp add: expected_events_def head_events_def tail_events_def window_events_def
        length_all_easter_events)

lemma in_range_2024_1: "in_range 2024 1"
  by (simp add: in_range_def)

lemma generate_2024_1:
  "generate counting_uuids 2024 1 = Inr (expected_calendar counting_uuids 2024 1)"
  by (rule generate_in_range [OF in_range_2024_1])

lemma subcomponents_expected [simp]:
  "subcomponents (expected_calendar U sy c) = expected_events U sy c"
  by (simp add: expected_calendar_def)


lemma all_easter_events_split:
  assumes "0 \<le> i" "i < c"
  shows "all_easter_events U n sy c
           = all_easter_events U n sy i @ easter_events U (n + 8 * nat i) (sy + i)
             @ concat (map (\<lambda>i. easter_events U (n + 8 * nat i) (sy + i)) [i + 1..c - 1])"
proof -
  have "[0..c - 1] = [0..i - 1] @ [i..c - 1]"
    using upto_split1 [of 0 i "c - 1"] assms by simp
  also have "[i..c - 1] = i # [i + 1..c - 1]"
    using upto_rec1 [of i "c - 1"] assms by simp
  finally show ?thesis by (simp add: all_easter_events_def)
qed

lemma easter_block:
  assumes "0 \<le> i" "i < c"
  shows "take 8 (drop (3 + 8 * nat i) (expected_events U sy c))
           = easter_events U (3 + 8 * nat i) (sy + i)"
proof -
  have "expected_events U sy c
          = (head_events U sy @ all_easter_events U 3 sy i)
            @ easter_events U (3 + 8 * nat i) (sy + i)
            @ (concat (map (\<lambda>i. easter_events U (3 + 8 * nat i) (sy + i)) [i + 1..c - 1])
               @ tail_events U (3 + 8 * nat c) sy)"
    by (simp add: expected_events_def all_easter_events_split [OF assms])
  moreover have "length (head_events U sy @ all_easter_events U 3 sy i) = 3 + 8 * nat i"
    by (simp add: head_events_def length_all_easter_events)
  ultimately show ?thesis by simp
qed

lemma toordinal_days_after: "toordinal (days_after dt k) = toordinal dt + k"
  by (simp add: days_after_def toordinal_ord2ymd)

lemma easter_2024:
  "easter_date 2024 = \<lparr>year = 2024, month = 3, day = 31\<rparr>"
  "days_after \<lparr>year = 2024, month = 3, day = 31\<rparr> (- 3) = \<lparr>year = 2024, month = 3, day = 28\<rparr>"
  "days_after \<lparr>year = 2024, month = 3, day = 31\<rparr> 39 = \<lparr>year = 2024, month = 5, day = 9\<rparr>"
  "days_after \<lparr>year = 2024, month = 3, day = 31\<rparr> 49 = \<lparr>year = 2024, month = 5, day = 19\<rparr>"
  by code_simp+


lemma all_easter_events_1: "all_easter_events U n sy 1 = easter_events U n sy"
  using all_easter_events_Suc [of U n sy 0] by (simp add: all_easter_events_nonpos)

lemma expected_events_2024_1:
  "expected_events U 2024 1
     = head_events U 2024 @ easter_events U 3 2024 @ tail_events U 11 2024"
  by (simp add: expected_events_def all_easter_events_1)

lemma Holiday_rrule_None: "(Holiday u dt s w)\<lparr>rrule := None\<rparr> = Holiday u dt s w"
  by (simp add: Holiday_def Let_def)

lemma shape_updated:
  "\<exists>u dt s w r. (Holiday a b c d)\<lparr>rrule := r0\<rparr> = (Holiday u dt s w)\<lparr>rrule := r\<rparr>"
  by (intro exI) (rule refl)

lemma shape_FixedHoliday:
  "\<exists>u dt s w r. FixedHoliday a b c d = (Holiday u dt s w)\<lparr>rrule := r\<rparr>"
  unfolding FixedHoliday_def by (rule shape_updated)

lemma expected_events_shape:
  assumes "e \<in> set (expected_events U sy c)"
  shows "\<exists>u dt s w r. e = (Holiday u dt s w)\<lparr>rrule := r\<rparr>"
proof -
  consider "e \<in> set (head_events U sy)" | "e \<in> set (all_easter_events U 3 sy c)"
    | "e \<in> set (tail_events U (3 + 8 * nat c) sy)"
    using assms by (auto simp: expected_events_def)
  then show ?thesis
  proof cases
    case 1
    then show ?thesis
      using shape_FixedHoliday by (auto simp: head_events_def)
  next
    case 2
    then obtain u dt s w where "e = Holiday u dt s w"
      using all_easter_events_Holiday by blast
    then have "e = (Holiday u dt s w)\<lparr>rrule := None\<rparr>"
      by (simp add: Holiday_rrule_None)
    then show ?thesis by blast
  next
    case 3
    then show ?thesis
      using shape_FixedHoliday shape_updated
      by (auto simp: tail_events_def window_events_def)
  qed
qed




subsection \<open>Events without identifiers, and the identifiers\<close>

lemma fields_Holiday [simp]:
  "uid (Holiday u dt s w) = u" "transp (Holiday u dt s w) = ''TRANSPARENT''"
  "dtstart (Holiday u dt s w) = dt" "summary (Holiday u dt s w) = s"
  by (simp_all add: Holiday_def Let_def)

lemma fields_FixedHoliday [simp]:
  "uid (FixedHoliday u dt s w) = u" "transp (FixedHoliday u dt s w) = ''TRANSPARENT''"
  "dtstart (FixedHoliday u dt s w) = dt" "summary (FixedHoliday u dt s w) = s"
  by (simp_all add: FixedHoliday_def)

lemma anonymous_Holiday [simp]: "anonymous (Holiday u dt s w) = Holiday 0 dt s w"
  by (simp add: anonymous_def Holiday_def Let_def)

lemma anonymous_FixedHoliday [simp]:
  "anonymous (FixedHoliday u dt s w) = FixedHoliday 0 dt s w"
  by (simp add: anonymous_def FixedHoliday_def Holiday_def Let_def)

lemma anonymous_rrule [simp]: "anonymous (e\<lparr>rrule := r\<rparr>) = (anonymous e)\<lparr>rrule := r\<rparr>"
  by (simp add: anonymous_def)

lemma anonymous_easter_events:
  "map anonymous (easter_events U n y) = easter_events (\<lambda>_. 0) m y"
  by (simp add: easter_events_def)

lemma anonymous_all_easter_events:
  "map anonymous (all_easter_events U n sy c) = all_easter_events (\<lambda>_. 0) m sy c"
  by (simp add: all_easter_events_def map_concat comp_def easter_events_def)

lemma anonymous_expected_events:
  "map anonymous (expected_events U sy c) = expected_events (\<lambda>_. 0) sy c"
  by (simp add: expected_events_def anonymous_all_easter_events head_events_def
        tail_events_def window_events_def)

lemma upt_8: "[n..<n + 8] = [n, n + 1, n + 2, n + 3, n + 4, n + 5, n + 6, n + 7]"
  by (simp add: upt_rec [of n] upt_rec [of "Suc n"] upt_rec [of "Suc (Suc n)"]
        upt_rec [of "Suc (Suc (Suc n))"] upt_rec [of "Suc (Suc (Suc (Suc n)))"]
        upt_rec [of "Suc (Suc (Suc (Suc (Suc n))))"]
        upt_rec [of "Suc (Suc (Suc (Suc (Suc (Suc n)))))"]
        upt_rec [of "Suc (Suc (Suc (Suc (Suc (Suc (Suc n))))))"]
        upt_rec [of "Suc (Suc (Suc (Suc (Suc (Suc (Suc (Suc n)))))))"] eval_nat_numeral)

lemma uid_easter_events: "map uid (easter_events U n y) = map U [n..<n + 8]"
  unfolding upt_8 by (simp add: easter_events_def)

lemma uid_all_easter_events_nat:
  "map uid (all_easter_events U n sy (int k)) = map U [n..<n + 8 * k]"
proof (induction k)
  case 0
  then show ?case by (simp add: all_easter_events_nonpos)
next
  case (Suc k)
  have e: "n + 8 * Suc k = n + 8 * k + 8" by simp
  have "[n..<n + 8 * Suc k] = [n..<n + 8 * k] @ [n + 8 * k..<n + 8 * k + 8]"
    unfolding e by (rule upt_add_eq_append) simp
  then show ?case
    using Suc by (simp add: all_easter_events_Suc uid_easter_events del: of_nat_Suc)
qed

lemma uid_all_easter_events:
  "map uid (all_easter_events U n sy c) = map U [n..<n + 8 * nat c]"
proof (cases "c \<le> 0")
  case True
  then show ?thesis by (simp add: all_easter_events_nonpos)
next
  case False
  then have "c = int (nat c)" by simp
  then show ?thesis using uid_all_easter_events_nat [of U n sy "nat c"] by simp
qed

lemma uid_head_events: "map uid (head_events U y) = map U [0..<3]"
  by (simp add: head_events_def upt_rec [of 0] upt_rec [of 1] upt_rec [of 2] eval_nat_numeral)

lemma upt_11:
  "[n..<n + 11] = [n, n + 1, n + 2, n + 3, n + 4, n + 5, n + 6, n + 7, n + 8, n + 9, n + 10]"
proof -
  have e: "n + 11 = n + 8 + 3" by simp
  have "[n..<n + 11] = [n..<n + 8] @ [n + 8..<n + 8 + 3]"
    unfolding e by (rule upt_add_eq_append) simp
  also have "[n + 8..<n + 8 + 3] = [n + 8, n + 9, n + 10]"
    by (simp add: upt_rec [of "n + 8"] upt_rec [of "Suc (n + 8)"]
          upt_rec [of "Suc (Suc (n + 8))"] upt_rec [of "Suc (Suc (Suc (n + 8)))"]
          eval_nat_numeral)
  finally show ?thesis by (simp add: upt_8)
qed

lemma uid_tail_events: "map uid (tail_events U n y) = map U [n..<n + 11]"
  unfolding upt_11
  by (simp add: tail_events_def window_events_def ac_simps)

lemma uid_expected_events:
  "map uid (expected_events U sy c) = map U [0..<length (expected_events U sy c)]"
proof -
  have e: "14 + 8 * nat c = 3 + 8 * nat c + 11" by simp
  have a: "[0..<3 + 8 * nat c + 11] = [0..<3 + 8 * nat c] @ [3 + 8 * nat c..<3 + 8 * nat c + 11]"
    by (rule upt_add_eq_append) simp
  have b: "[0..<3 + 8 * nat c] = [0..<3] @ [3..<3 + 8 * nat c]"
    using upt_add_eq_append [of 0 3 "8 * nat c"] by simp
  have "[0..<14 + 8 * nat c] = [0..<3] @ [3..<3 + 8 * nat c] @ [3 + 8 * nat c..<3 + 8 * nat c + 11]"
    unfolding e a b by simp
  then show ?thesis
    by (simp add: length_expected_events)
       (simp add: expected_events_def uid_head_events uid_all_easter_events uid_tail_events)
qed

subsection \<open>Order of the events\<close>

lemma concat_replicate_snoc: "concat (replicate k xs) @ xs = concat (replicate (Suc k) xs)"
  by (induction k) simp_all

lemma summary_easter_events:
  "map summary (easter_events U n y)
     = [Skartorsdagen, Langfredagen, Paskafton, Paskdagen, Annandag_pask,
        Kristi_himmelsfardsdag, Pingstafton, Pingstdagen]"
  by (simp add: easter_events_def)

lemma summary_all_easter_events_nat:
  "map summary (all_easter_events U n sy (int k))
     = concat (replicate k [Skartorsdagen, Langfredagen, Paskafton, Paskdagen, Annandag_pask,
                            Kristi_himmelsfardsdag, Pingstafton, Pingstdagen])"
proof (induction k)
  case 0
  then show ?case by (simp add: all_easter_events_nonpos)
next
  case (Suc k)
  then show ?case
    unfolding all_easter_events_Suc map_append summary_easter_events
    by (simp only: concat_replicate_snoc)
qed

lemma summary_all_easter_events:
  "map summary (all_easter_events U n sy c)
     = concat (replicate (nat c) [Skartorsdagen, Langfredagen, Paskafton, Paskdagen,
                                  Annandag_pask, Kristi_himmelsfardsdag, Pingstafton,
                                  Pingstdagen])"
proof (cases "c \<le> 0")
  case True
  then show ?thesis by (simp add: all_easter_events_nonpos)
next
  case False
  then have "c = int (nat c)" by simp
  then show ?thesis using summary_all_easter_events_nat [of U n sy "nat c"] by simp
qed

lemma summary_expected_events:
  "map summary (expected_events U sy c)
     = [Nyarsdagen, Trettondagsafton, Trettondedag_jul]
       @ concat (replicate (nat c) [Skartorsdagen, Langfredagen, Paskafton, Paskdagen,
                                    Annandag_pask, Kristi_himmelsfardsdag, Pingstafton,
                                    Pingstdagen])
       @ [Valborgsmassoafton, Forsta_maj, Sveriges_nationaldag,
          Midsommarafton, Midsommardagen, Allhelgonaafton, Alla_helgons_dag,
          Julafton, Juldagen, Annandag_jul, Nyarsafton]"
  by (simp add: expected_events_def summary_all_easter_events head_events_def tail_events_def
        window_events_def)

lemma map_all_easter_events_const:
  assumes "\<And>u dt s w. f (Holiday u dt s w) = v"
  shows "map f (all_easter_events U n sy c) = replicate (8 * nat c) v"
proof -
  have "f x = v" if mem: "x \<in> set (all_easter_events U n sy c)" for x
  proof -
    obtain u dt s w where "x = Holiday u dt s w"
      using all_easter_events_Holiday [OF mem] by blast
    then show ?thesis by (simp add: assms)
  qed
  then have "map f (all_easter_events U n sy c) = map (\<lambda>_. v) (all_easter_events U n sy c)"
    by (intro map_cong) simp_all
  then show ?thesis by (simp add: map_replicate_const length_all_easter_events)
qed

lemma recurring_expected_events:
  "map recurring (expected_events U sy c)
     = replicate 3 True @ replicate (8 * nat c) False @ replicate 11 True"
proof -
  have "map recurring (all_easter_events U 3 sy c) = replicate (8 * nat c) False"
    by (rule map_all_easter_events_const) simp
  moreover have "map recurring (head_events U sy) = replicate 3 True"
    by (simp add: head_events_def eval_nat_numeral)
  moreover have "map recurring (tail_events U (3 + 8 * nat c) sy) = replicate 11 True"
    by (simp add: tail_events_def window_events_def eval_nat_numeral)
  ultimately show ?thesis by (simp add: expected_events_def)
qed

lemma weekday_window_expected_events:
  "map weekday_window (expected_events U sy c)
     = replicate 3 False @ replicate (8 * nat c) False @ replicate 3 False
       @ replicate 4 True @ replicate 4 False"
proof -
  have "map weekday_window (all_easter_events U 3 sy c) = replicate (8 * nat c) False"
    by (rule map_all_easter_events_const) simp
  moreover have "map weekday_window (head_events U sy) = replicate 3 False"
    by (simp add: head_events_def eval_nat_numeral)
  moreover have "map weekday_window (tail_events U (3 + 8 * nat c) sy)
                   = replicate 3 False @ replicate 4 True @ replicate 4 False"
    by (simp add: tail_events_def window_events_def eval_nat_numeral)
  ultimately show ?thesis by (simp add: expected_events_def)
qed

lemma easter_sunday_event:
  assumes "0 \<le> i" "i < c"
  shows "expected_events U sy c ! (6 + 8 * nat i)
           = Holiday (U (6 + 8 * nat i)) (easter_date (sy + i)) Paskdagen FREE"
proof -
  have l: "3 + 8 * nat i + 3 < length (expected_events U sy c)"
    using assms by (simp add: length_expected_events)
  have "take 8 (drop (3 + 8 * nat i) (expected_events U sy c)) ! 3
          = expected_events U sy c ! (3 + 8 * nat i + 3)"
    using l by simp
  then have "expected_events U sy c ! (3 + 8 * nat i + 3)
               = easter_events U (3 + 8 * nat i) (sy + i) ! 3"
    by (simp only: easter_block [OF assms])
  then show ?thesis by (simp add: easter_events_def)
qed

subsection \<open>Events written out field by field\<close>

lemma Holiday_fields:
  "Holiday u dt s DEPENDS
     = \<lparr>uid = u, transp = ''TRANSPARENT'', dtstart = dt, summary = s,
        categories = Some ''Ledighet enligt avtal'', description = Some depends_description,
        rrule = None\<rparr>"
  "Holiday u dt s DEFACTO
     = \<lparr>uid = u, transp = ''TRANSPARENT'', dtstart = dt, summary = s,
        categories = None, description = Some defacto_description, rrule = None\<rparr>"
  "Holiday u dt s FREE
     = \<lparr>uid = u, transp = ''TRANSPARENT'', dtstart = dt, summary = s,
        categories = None, description = None, rrule = None\<rparr>"
  by (simp_all add: Holiday_def Ledighet_enligt_avtal_def)

lemma FixedHoliday_fields:
  "FixedHoliday u dt s DEPENDS
     = \<lparr>uid = u, transp = ''TRANSPARENT'', dtstart = dt, summary = s,
        categories = Some ''Ledighet enligt avtal'', description = Some depends_description,
        rrule = Some \<lparr>FREQ = YEARLY, BYDAY = None, BYMONTHDAY = None, BYMONTH = None\<rparr>\<rparr>"
  "FixedHoliday u dt s DEFACTO
     = \<lparr>uid = u, transp = ''TRANSPARENT'', dtstart = dt, summary = s,
        categories = None, description = Some defacto_description,
        rrule = Some \<lparr>FREQ = YEARLY, BYDAY = None, BYMONTHDAY = None, BYMONTH = None\<rparr>\<rparr>"
  "FixedHoliday u dt s FREE
     = \<lparr>uid = u, transp = ''TRANSPARENT'', dtstart = dt, summary = s,
        categories = None, description = None,
        rrule = Some \<lparr>FREQ = YEARLY, BYDAY = None, BYMONTHDAY = None, BYMONTH = None\<rparr>\<rparr>"
  by (simp_all add: FixedHoliday_def Holiday_fields)

subsection \<open>The dates of the Easter-relative events\<close>

lemma easter_date_valid:
  assumes "1 \<le> y" "y \<le> 9999"
  shows "valid_date (easter_date y)"
proof -
  have r: "- 6 \<le> easter_p y" "easter_p y \<le> 28" using easter_p_range [of y] by simp_all
  show ?thesis
    using assms r
    by (simp add: valid_date_def easter_date_def date_def fits_c_int_def MINYEAR_def
          MAXYEAR_def days_in_month_def DAYS_IN_MONTH_def)
qed

lemma days_after_easter_valid:
  assumes "1 \<le> y" "y \<le> 9999" "- 3 \<le> k" "k \<le> 49"
  shows "valid_date (days_after (easter_date y) k)"
proof -
  have "1 \<le> toordinal (easter_date y) + k" "toordinal (easter_date y) + k \<le> 3652059"
    using toordinal_easter_bounds [OF assms(1,2)] assms(3,4) by simp_all
  then show ?thesis
    unfolding valid_date_def days_after_def by (rule ord2ymd_valid)
qed

lemma easter_offsets:
  assumes "1 \<le> y" "y \<le> 9999"
  shows "date_sub (easter_date y) (timedelta 3 0) = Inr (days_after (easter_date y) (- 3))"
    "date_sub (easter_date y) (timedelta 2 0) = Inr (days_after (easter_date y) (- 2))"
    "date_sub (easter_date y) (timedelta 1 0) = Inr (days_after (easter_date y) (- 1))"
    "date_add (easter_date y) (timedelta 1 0) = Inr (days_after (easter_date y) 1)"
    "date_add (easter_date y) (timedelta 4 5) = Inr (days_after (easter_date y) 39)"
    "date_add (easter_date y) (timedelta 6 6) = Inr (days_after (easter_date y) 48)"
    "date_add (easter_date y) (timedelta 0 7) = Inr (days_after (easter_date y) 49)"
  by (simp_all add: date_sub_def timedelta_def date_add_easter [OF assms])

lemma days_after_2024:
  "days_after \<lparr>year = 2024, month = 3, day = 31\<rparr> (- 2) = \<lparr>year = 2024, month = 3, day = 29\<rparr>"
  "days_after \<lparr>year = 2024, month = 3, day = 31\<rparr> (- 1) = \<lparr>year = 2024, month = 3, day = 30\<rparr>"
  "days_after \<lparr>year = 2024, month = 3, day = 31\<rparr> 1 = \<lparr>year = 2024, month = 4, day = 1\<rparr>"
  "days_after \<lparr>year = 2024, month = 3, day = 31\<rparr> 48 = \<lparr>year = 2024, month = 5, day = 18\<rparr>"
  by code_simp+

lemma fixed_date_expected_events:
  "map fixed_date (expected_events U sy c)
     = replicate 3 True @ replicate (8 * nat c) False @ replicate 3 True
       @ replicate 4 False @ replicate 4 True"
proof -
  have "map fixed_date (all_easter_events U 3 sy c) = replicate (8 * nat c) False"
    by (rule map_all_easter_events_const) simp
  moreover have "map fixed_date (head_events U sy) = replicate 3 True"
    by (simp add: head_events_def eval_nat_numeral)
  moreover have "map fixed_date (tail_events U (3 + 8 * nat c) sy)
                   = replicate 3 True @ replicate 4 False @ replicate 4 True"
    by (simp add: tail_events_def window_events_def eval_nat_numeral)
  ultimately show ?thesis by (simp add: expected_events_def)
qed

subsection \<open>Events without identifiers, field by field\<close>

lemma map_field_anonymous:
  assumes "map anonymous xs = map anonymous ys"
  shows "map transp xs = map transp ys" "map dtstart xs = map dtstart ys"
    "map summary xs = map summary ys" "map categories xs = map categories ys"
    "map description xs = map description ys" "map rrule xs = map rrule ys"
proof -
  have f: "map transp zs = map transp (map anonymous zs)"
    "map dtstart zs = map dtstart (map anonymous zs)"
    "map summary zs = map summary (map anonymous zs)"
    "map categories zs = map categories (map anonymous zs)"
    "map description zs = map description (map anonymous zs)"
    "map rrule zs = map rrule (map anonymous zs)" for zs
    by (simp_all add: anonymous_def)
  show "map transp xs = map transp ys" "map dtstart xs = map dtstart ys"
    "map summary xs = map summary ys" "map categories xs = map categories ys"
    "map description xs = map description ys" "map rrule xs = map rrule ys"
    using assms f [of xs] f [of ys] by simp_all
qed

lemma expected_events_annotations:
  assumes "e \<in> set (expected_events U sy c)"
  shows "categories e = Some ''Ledighet enligt avtal'' \<and> description e = Some depends_description
       \<or> categories e = None \<and> description e = Some defacto_description
       \<or> categories e = None \<and> description e = None"
proof -
  obtain u dt s w r where "e = (Holiday u dt s w)\<lparr>rrule := r\<rparr>"
    using expected_events_shape [OF assms] by blast
  then show ?thesis by (cases w) (simp_all add: Holiday_fields)
qed

section \<open>The claims\<close>

subsection \<open>Number of events and the count argument\<close>

text \<open>
  Claim C1, as stated (12 + 8 * count events), fails: for start year 2024 and count 1
  the document has 22 events, not 20.
\<close>

theorem C1_counterexample:
  "\<not> isl (generate counting_uuids 2024 1)
   \<and> length (subcomponents (projr (generate counting_uuids 2024 1))) = 22
   \<and> (22::nat) \<noteq> 12 + 8 * 1"
  by (simp add: generate_2024_1 length_expected_events)

text \<open>
  Claim C1, amended. For every start year from 1 to 9999 and every count of at least 1
  with start_year + count at most 10000, \<open>generate\<close> returns a document with exactly
  14 + 8 * count events: 14 events that carry a recurrence rule, emitted once whatever
  the count, of which 10 are of the fixed-date kind and 4 of the weekday-window kind,
  and 8 events without a recurrence rule for each requested year. The eight events of
  the year start_year + i follow the first 3 + 8 * i events and are anchored from 3
  days before to 49 days after the Easter date of that year.
\<close>

theorem C1_event_count:
  assumes "1 \<le> start_year" "start_year \<le> 9999" "1 \<le> count" "start_year + count \<le> 10000"
  shows "\<exists>doc. generate U start_year count = Inr doc
           \<and> length (subcomponents doc) = 14 + 8 * nat count
           \<and> length (filter recurring (subcomponents doc)) = 14
           \<and> length (filter fixed_date (subcomponents doc)) = 10
           \<and> length (filter weekday_window (subcomponents doc)) = 4
           \<and> length (filter (\<lambda>e. \<not> recurring e) (subcomponents doc)) = 8 * nat count
           \<and> (\<forall>i. 0 \<le> i \<and> i < count \<longrightarrow>
                (\<exists>E. easter (start_year + i) = Inr E
                   \<and> length (take 8 (drop (3 + 8 * nat i) (subcomponents doc))) = 8
                   \<and> (\<forall>e \<in> set (take 8 (drop (3 + 8 * nat i) (subcomponents doc))).
                        \<not> recurring e
                        \<and> toordinal E - 3 \<le> toordinal (dtstart e)
                        \<and> toordinal (dtstart e) \<le> toordinal E + 49)))"
proof -
  have r: "in_range start_year count" using assms by (simp add: in_range_def)
  have g: "generate U start_year count = Inr (expected_calendar U start_year count)"
    using r by (rule generate_in_range)
  have 1: "length (filter recurring (expected_events U start_year count)) = 14"
    by (simp add: filter_recurring head_events_def tail_events_def window_events_def)
  have 2: "length (filter fixed_date (expected_events U start_year count)) = 10"
    by (simp add: filter_fixed_date head_events_def)
  have 3: "length (filter weekday_window (expected_events U start_year count)) = 4"
    by (simp add: filter_weekday_window window_events_def)
  have 4: "length (filter (\<lambda>e. \<not> recurring e) (expected_events U start_year count))
             = 8 * nat count"
    by (simp add: filter_not_recurring length_all_easter_events)
  have 5: "\<exists>E. easter (start_year + i) = Inr E
             \<and> length (take 8 (drop (3 + 8 * nat i) (expected_events U start_year count))) = 8
             \<and> (\<forall>e \<in> set (take 8 (drop (3 + 8 * nat i) (expected_events U start_year count))).
                  \<not> recurring e
                  \<and> toordinal E - 3 \<le> toordinal (dtstart e)
                  \<and> toordinal (dtstart e) \<le> toordinal E + 49)"
    if i: "0 \<le> i" "i < count" for i
  proof -
    have y: "1 \<le> start_year + i" "start_year + i \<le> 9999"
      using assms i by simp_all
    have b: "take 8 (drop (3 + 8 * nat i) (expected_events U start_year count))
               = easter_events U (3 + 8 * nat i) (start_year + i)"
      by (rule easter_block [OF i])
    have "\<forall>e \<in> set (easter_events U (3 + 8 * nat i) (start_year + i)).
            \<not> recurring e
            \<and> toordinal (easter_date (start_year + i)) - 3 \<le> toordinal (dtstart e)
            \<and> toordinal (dtstart e) \<le> toordinal (easter_date (start_year + i)) + 49"
      by (simp add: easter_events_def toordinal_days_after)
    then show ?thesis
      unfolding b using easter_ok [OF y] by simp
  qed
  define doc where "doc = expected_calendar U start_year count"
  have s: "subcomponents doc = expected_events U start_year count"
    by (simp add: doc_def)
  have A: "generate U start_year count = Inr doc" using g by (simp add: doc_def)
  have B: "length (subcomponents doc) = 14 + 8 * nat count"
    unfolding s by (rule length_expected_events)
  have C: "\<forall>i. 0 \<le> i \<and> i < count \<longrightarrow>
             (\<exists>E. easter (start_year + i) = Inr E
                \<and> length (take 8 (drop (3 + 8 * nat i) (subcomponents doc))) = 8
                \<and> (\<forall>e \<in> set (take 8 (drop (3 + 8 * nat i) (subcomponents doc))).
                     \<not> recurring e
                     \<and> toordinal E - 3 \<le> toordinal (dtstart e)
                     \<and> toordinal (dtstart e) \<le> toordinal E + 49))"
    unfolding s using 5 by blast
  show ?thesis
    using A B 1 2 3 4 C unfolding s [symmetric] by blast
qed

theorem C1_witness:
  "(1::int) \<le> 2024 \<and> (2024::int) \<le> 9999 \<and> (1::int) \<le> 3 \<and> (2024::int) + 3 \<le> 10000
   \<and> (0::int) \<le> 2 \<and> (2::int) < 3
   \<and> (\<exists>doc. generate counting_uuids 2024 3 = Inr doc
           \<and> length (subcomponents doc) = 38
           \<and> length (filter recurring (subcomponents doc)) = 14
           \<and> length (filter fixed_date (subcomponents doc)) = 10
           \<and> length (filter weekday_window (subcomponents doc)) = 4
           \<and> length (filter (\<lambda>e. \<not> recurring e) (subcomponents doc)) = 24
           \<and> (\<exists>E. easter 2026 = Inr E
                \<and> length (take 8 (drop 19 (subcomponents doc))) = 8
                \<and> (\<forall>e \<in> set (take 8 (drop 19 (subcomponents doc))).
                      \<not> recurring e
                      \<and> toordinal E - 3 \<le> toordinal (dtstart e)
                      \<and> toordinal (dtstart e) \<le> toordinal E + 49)))"
proof -
  obtain doc where d: "generate counting_uuids 2024 3 = Inr doc"
    and l: "length (subcomponents doc) = 14 + 8 * nat 3"
      "length (filter recurring (subcomponents doc)) = 14"
      "length (filter fixed_date (subcomponents doc)) = 10"
      "length (filter weekday_window (subcomponents doc)) = 4"
      "length (filter (\<lambda>e. \<not> recurring e) (subcomponents doc)) = 8 * nat 3"
    and e: "\<forall>i. 0 \<le> i \<and> i < 3 \<longrightarrow>
              (\<exists>E. easter (2024 + i) = Inr E
                 \<and> length (take 8 (drop (3 + 8 * nat i) (subcomponents doc))) = 8
                 \<and> (\<forall>e \<in> set (take 8 (drop (3 + 8 * nat i) (subcomponents doc))).
                      \<not> recurring e
                      \<and> toordinal E - 3 \<le> toordinal (dtstart e)
                      \<and> toordinal (dtstart e) \<le> toordinal E + 49))"
    using C1_event_count [of 2024 3 counting_uuids] by auto
  have "\<exists>E. easter 2026 = Inr E
          \<and> length (take 8 (drop 19 (subcomponents doc))) = 8
          \<and> (\<forall>e \<in> set (take 8 (drop 19 (subcomponents doc))).
                \<not> recurring e
                \<and> toordinal E - 3 \<le> toordinal (dtstart e)
                \<and> toordinal (dtstart e) \<le> toordinal E + 49)"
    using e [rule_format, of 2] by simp
  then show ?thesis using d l by simp
qed

text \<open>
  Claim C2, as stated (a count below 1 fails with an InvalidArgument error), fails: for
  start year 2023 and count 0 no error is raised and a document of 14 events is
  returned.
\<close>

theorem C2_counterexample:
  "\<not> isl (generate counting_uuids 2023 0)
   \<and> length (subcomponents (projr (generate counting_uuids 2023 0))) = 14"
proof -
  have "in_range 2023 0" by (simp add: in_range_def)
  then have "generate counting_uuids 2023 0 = Inr (expected_calendar counting_uuids 2023 0)"
    by (rule generate_in_range)
  then show ?thesis by (simp add: length_expected_events)
qed

text \<open>
  Claim C2, amended. A count below 1 raises no error: the loop over the years does not
  run. For every start year from 1 to 9999 the call returns the complete document of
  the 14 recurring events, with no Easter-relative event. For every other start year
  the call fails in the \<^verbatim>\<open>date\<close> constructor and returns no document: with
  \<^verbatim>\<open>ValueError\<close> when the start year fits a C integer of 32 bits, with
  \<^verbatim>\<open>OverflowError\<close> when it does not.
\<close>

theorem C2_nonpositive_count:
  assumes "count < 1"
  shows "(1 \<le> start_year \<and> start_year \<le> 9999 \<longrightarrow>
            (\<exists>doc. generate U start_year count = Inr doc
               \<and> map summary (subcomponents doc)
                   = [Nyarsdagen, Trettondagsafton, Trettondedag_jul,
                      Valborgsmassoafton, Forsta_maj, Sveriges_nationaldag,
                      Midsommarafton, Midsommardagen, Allhelgonaafton, Alla_helgons_dag,
                      Julafton, Juldagen, Annandag_jul, Nyarsafton]
               \<and> list_all recurring (subcomponents doc)))
       \<and> (\<not> (1 \<le> start_year \<and> start_year \<le> 9999) \<longrightarrow>
            generate U start_year count
              = Inl (if - (2 ^ 31) \<le> start_year \<and> start_year < 2 ^ 31
                     then ValueError else OverflowError))"
proof -
  have c: "count \<le> 0" "nat count = 0" using assms by simp_all
  have r: "in_range start_year count \<longleftrightarrow> 1 \<le> start_year \<and> start_year \<le> 9999"
    using c by (auto simp: in_range_def)
  have s: "map summary (expected_events U start_year count)
             = [Nyarsdagen, Trettondagsafton, Trettondedag_jul,
                Valborgsmassoafton, Forsta_maj, Sveriges_nationaldag,
                Midsommarafton, Midsommardagen, Allhelgonaafton, Alla_helgons_dag,
                Julafton, Juldagen, Annandag_jul, Nyarsafton]"
    by (simp add: summary_expected_events c(2))
  have a: "list_all recurring (expected_events U start_year count)"
    using c(1)
    by (simp add: expected_events_def all_easter_events_nonpos head_events_def
          tail_events_def window_events_def)
  show ?thesis
  proof (cases "in_range start_year count")
    case True
    then show ?thesis using generate_in_range [OF True, of U] r s a by simp
  next
    case False
    then show ?thesis
      using generate_out_of_range [OF False, of U] r
      by (simp add: range_error_def fits_c_int_def)
  qed
qed

theorem C2_witness:
  "(0::int) < 1 \<and> (1::int) \<le> 2023 \<and> (2023::int) \<le> 9999
   \<and> (\<exists>doc. generate counting_uuids 2023 0 = Inr doc
          \<and> map summary (subcomponents doc)
              = [Nyarsdagen, Trettondagsafton, Trettondedag_jul,
                 Valborgsmassoafton, Forsta_maj, Sveriges_nationaldag,
                 Midsommarafton, Midsommardagen, Allhelgonaafton, Alla_helgons_dag,
                 Julafton, Juldagen, Annandag_jul, Nyarsafton]
          \<and> list_all recurring (subcomponents doc))
   \<and> \<not> (1 \<le> (0::int) \<and> (0::int) \<le> 9999)
   \<and> generate counting_uuids 0 0 = Inl ValueError
   \<and> \<not> (1 \<le> (2147483648::int) \<and> (2147483648::int) \<le> 9999)
   \<and> generate counting_uuids 2147483648 0 = Inl OverflowError"
  using C2_nonpositive_count [of 0 2023 counting_uuids]
    C2_nonpositive_count [of 0 0 counting_uuids]
    C2_nonpositive_count [of 0 2147483648 counting_uuids]
  by simp

subsection \<open>Easter-relative events\<close>

text \<open>
  Claim C3. In a generated document, for every year \<open>Y = start_year + i\<close> of the range,
  the eight events after the first \<open>3 + 8 * i\<close> are the Easter-relative events of \<open>Y\<close>.
  With \<open>E\<close> the date that \<open>easter\<close> returns for \<open>Y\<close>, they are anchored at \<open>E\<close> - 3 days
  (Maundy Thursday), - 2 days (Good Friday), - 1 day (Holy Saturday), \<open>E\<close> itself (Easter
  Sunday), + 1 day (Easter Monday), + 5 weeks + 4 days (Ascension Day), + 6 weeks + 6
  days (Whit Saturday) and + 7 weeks (Whit Sunday): each anchor is the result of the
  program's date arithmetic, is a date that the \<^verbatim>\<open>date\<close> constructor accepts, and has
  the ordinal of \<open>E\<close> plus the offset in days. None of the eight carries a recurrence
  rule. Maundy Thursday carries the annotations of the status Depends, the category tag
  and the description of that status; the other seven carry those of the status Free,
  neither a category tag nor a description. For \<open>Y\<close> = 2024 Easter Sunday is 2024-03-31,
  Maundy Thursday 2024-03-28, Ascension Day 2024-05-09 and Whit Sunday 2024-05-19.
\<close>

theorem C3_easter_relative_events:
  assumes "generate U start_year count = Inr doc" "0 \<le> i" "i < count"
  shows "\<exists>E d1 d2 d3 d5 d6 d7 d8.
           easter (start_year + i) = Inr E
         \<and> date_sub E (timedelta 3 0) = Inr d1 \<and> toordinal d1 = toordinal E - 3
         \<and> date_sub E (timedelta 2 0) = Inr d2 \<and> toordinal d2 = toordinal E - 2
         \<and> date_sub E (timedelta 1 0) = Inr d3 \<and> toordinal d3 = toordinal E - 1
         \<and> date_add E (timedelta 1 0) = Inr d5 \<and> toordinal d5 = toordinal E + 1
         \<and> date_add E (timedelta 4 5) = Inr d6 \<and> toordinal d6 = toordinal E + (5 * 7 + 4)
         \<and> date_add E (timedelta 6 6) = Inr d7 \<and> toordinal d7 = toordinal E + (6 * 7 + 6)
         \<and> date_add E (timedelta 0 7) = Inr d8 \<and> toordinal d8 = toordinal E + 7 * 7
         \<and> list_all valid_date [d1, d2, d3, E, d5, d6, d7, d8]
         \<and> take 8 (drop (3 + 8 * nat i) (subcomponents doc))
             = [\<lparr>uid = U (3 + 8 * nat i), transp = ''TRANSPARENT'', dtstart = d1,
                 summary = Skartorsdagen, categories = Some ''Ledighet enligt avtal'',
                 description = Some depends_description, rrule = None\<rparr>,
                \<lparr>uid = U (3 + 8 * nat i + 1), transp = ''TRANSPARENT'', dtstart = d2,
                 summary = Langfredagen, categories = None, description = None,
                 rrule = None\<rparr>,
                \<lparr>uid = U (3 + 8 * nat i + 2), transp = ''TRANSPARENT'', dtstart = d3,
                 summary = Paskafton, categories = None, description = None,
                 rrule = None\<rparr>,
                \<lparr>uid = U (3 + 8 * nat i + 3), transp = ''TRANSPARENT'', dtstart = E,
                 summary = Paskdagen, categories = None, description = None,
                 rrule = None\<rparr>,
                \<lparr>uid = U (3 + 8 * nat i + 4), transp = ''TRANSPARENT'', dtstart = d5,
                 summary = Annandag_pask, categories = None, description = None,
                 rrule = None\<rparr>,
                \<lparr>uid = U (3 + 8 * nat i + 5), transp = ''TRANSPARENT'', dtstart = d6,
                 summary = Kristi_himmelsfardsdag, categories = None, description = None,
                 rrule = None\<rparr>,
                \<lparr>uid = U (3 + 8 * nat i + 6), transp = ''TRANSPARENT'', dtstart = d7,
                 summary = Pingstafton, categories = None, description = None,
                 rrule = None\<rparr>,
                \<lparr>uid = U (3 + 8 * nat i + 7), transp = ''TRANSPARENT'', dtstart = d8,
                 summary = Pingstdagen, categories = None, description = None,
                 rrule = None\<rparr>]
         \<and> (start_year + i = 2024 \<longrightarrow>
                E = \<lparr>year = 2024, month = 3, day = 31\<rparr>
                \<and> d1 = \<lparr>year = 2024, month = 3, day = 28\<rparr>
                \<and> d6 = \<lparr>year = 2024, month = 5, day = 9\<rparr>
                \<and> d8 = \<lparr>year = 2024, month = 5, day = 19\<rparr>)"
proof -
  have r: "in_range start_year count" and d: "doc = expected_calendar U start_year count"
    using assms(1) by (simp_all add: generate_Inr_iff)
  have y: "1 \<le> start_year + i" "start_year + i \<le> 9999"
    using r assms(2,3) by (simp_all add: in_range_def)
  define E where "E = easter_date (start_year + i)"
  note o = easter_offsets [OF y, folded E_def]
  have A: "easter (start_year + i) = Inr E"
    unfolding E_def by (rule easter_ok [OF y])
  have V: "list_all valid_date
             [days_after E (- 3), days_after E (- 2), days_after E (- 1), E,
              days_after E 1, days_after E 39, days_after E 48, days_after E 49]"
    unfolding E_def
    by (simp add: easter_date_valid [OF y] days_after_easter_valid [OF y])
  have "take 8 (drop (3 + 8 * nat i) (subcomponents doc))
          = easter_events U (3 + 8 * nat i) (start_year + i)"
    unfolding d subcomponents_expected by (rule easter_block [OF assms(2,3)])
  then have B: "take 8 (drop (3 + 8 * nat i) (subcomponents doc))
             = [\<lparr>uid = U (3 + 8 * nat i), transp = ''TRANSPARENT'',
                 dtstart = days_after E (- 3),
                 summary = Skartorsdagen, categories = Some ''Ledighet enligt avtal'',
                 description = Some depends_description, rrule = None\<rparr>,
                \<lparr>uid = U (3 + 8 * nat i + 1), transp = ''TRANSPARENT'',
                 dtstart = days_after E (- 2),
                 summary = Langfredagen, categories = None, description = None,
                 rrule = None\<rparr>,
                \<lparr>uid = U (3 + 8 * nat i + 2), transp = ''TRANSPARENT'',
                 dtstart = days_after E (- 1),
                 summary = Paskafton, categories = None, description = None,
                 rrule = None\<rparr>,
                \<lparr>uid = U (3 + 8 * nat i + 3), transp = ''TRANSPARENT'', dtstart = E,
                 summary = Paskdagen, categories = None, description = None,
                 rrule = None\<rparr>,
                \<lparr>uid = U (3 + 8 * nat i + 4), transp = ''TRANSPARENT'',
                 dtstart = days_after E 1,
                 summary = Annandag_pask, categories = None, description = None,
                 rrule = None\<rparr>,
                \<lparr>uid = U (3 + 8 * nat i + 5), transp = ''TRANSPARENT'',
                 dtstart = days_after E 39,
                 summary = Kristi_himmelsfardsdag, categories = None, description = None,
                 rrule = None\<rparr>,
                \<lparr>uid = U (3 + 8 * nat i + 6), transp = ''TRANSPARENT'',
                 dtstart = days_after E 48,
                 summary = Pingstafton, categories = None, description = None,
                 rrule = None\<rparr>,
                \<lparr>uid = U (3 + 8 * nat i + 7), transp = ''TRANSPARENT'',
                 dtstart = days_after E 49,
                 summary = Pingstdagen, categories = None, description = None,
                 rrule = None\<rparr>]"
    by (simp add: easter_events_def E_def Holiday_fields)
  have T: "toordinal (days_after E (- 3)) = toordinal E - 3"
    "toordinal (days_after E (- 2)) = toordinal E - 2"
    "toordinal (days_after E (- 1)) = toordinal E - 1"
    "toordinal (days_after E 1) = toordinal E + 1"
    "toordinal (days_after E 39) = toordinal E + (5 * 7 + 4)"
    "toordinal (days_after E 48) = toordinal E + (6 * 7 + 6)"
    "toordinal (days_after E 49) = toordinal E + 7 * 7"
    by (simp_all add: toordinal_days_after)
  have F: "start_year + i = 2024 \<longrightarrow>
             E = \<lparr>year = 2024, month = 3, day = 31\<rparr>
             \<and> days_after E (- 3) = \<lparr>year = 2024, month = 3, day = 28\<rparr>
             \<and> days_after E 39 = \<lparr>year = 2024, month = 5, day = 9\<rparr>
             \<and> days_after E 49 = \<lparr>year = 2024, month = 5, day = 19\<rparr>"
  proof
    assume "start_year + i = 2024"
    then have "E = \<lparr>year = 2024, month = 3, day = 31\<rparr>"
      by (simp add: E_def easter_2024(1))
    then show "E = \<lparr>year = 2024, month = 3, day = 31\<rparr>
             \<and> days_after E (- 3) = \<lparr>year = 2024, month = 3, day = 28\<rparr>
             \<and> days_after E 39 = \<lparr>year = 2024, month = 5, day = 9\<rparr>
             \<and> days_after E 49 = \<lparr>year = 2024, month = 5, day = 19\<rparr>"
      using easter_2024(2,3,4) by simp
  qed
  show ?thesis
    apply (rule exI [of _ E])
    apply (rule exI [of _ "days_after E (- 3)"])
    apply (rule exI [of _ "days_after E (- 2)"])
    apply (rule exI [of _ "days_after E (- 1)"])
    apply (rule exI [of _ "days_after E 1"])
    apply (rule exI [of _ "days_after E 39"])
    apply (rule exI [of _ "days_after E 48"])
    apply (rule exI [of _ "days_after E 49"])
    apply (intro conjI)
    apply (rule A o T V B F)+
    done
qed

theorem C3_witness:
  "(0::int) \<le> 0 \<and> (0::int) < 1 \<and> (2024::int) + 0 = 2024
   \<and> easter 2024 = Inr \<lparr>year = 2024, month = 3, day = 31\<rparr>
   \<and> (\<exists>doc. generate counting_uuids 2024 1 = Inr doc
        \<and> take 8 (drop 3 (subcomponents doc))
           = [\<lparr>uid = 3, transp = ''TRANSPARENT'',
               dtstart = \<lparr>year = 2024, month = 3, day = 28\<rparr>,
               summary = Skartorsdagen, categories = Some ''Ledighet enligt avtal'',
               description = Some depends_description, rrule = None\<rparr>,
              \<lparr>uid = 4, transp = ''TRANSPARENT'',
               dtstart = \<lparr>year = 2024, month = 3, day = 29\<rparr>,
               summary = Langfredagen, categories = None, description = None,
               rrule = None\<rparr>,
              \<lparr>uid = 5, transp = ''TRANSPARENT'',
               dtstart = \<lparr>year = 2024, month = 3, day = 30\<rparr>,
               summary = Paskafton, categories = None, description = None,
               rrule = None\<rparr>,
              \<lparr>uid = 6, transp = ''TRANSPARENT'',
               dtstart = \<lparr>year = 2024, month = 3, day = 31\<rparr>,
               summary = Paskdagen, categories = None, description = None,
               rrule = None\<rparr>,
              \<lparr>uid = 7, transp = ''TRANSPARENT'',
               dtstart = \<lparr>year = 2024, month = 4, day = 1\<rparr>,
               summary = Annandag_pask, categories = None, description = None,
               rrule = None\<rparr>,
              \<lparr>uid = 8, transp = ''TRANSPARENT'',
               dtstart = \<lparr>year = 2024, month = 5, day = 9\<rparr>,
               summary = Kristi_himmelsfardsdag, categories = None, description = None,
               rrule = None\<rparr>,
              \<lparr>uid = 9, transp = ''TRANSPARENT'',
               dtstart = \<lparr>year = 2024, month = 5, day = 18\<rparr>,
               summary = Pingstafton, categories = None, description = None,
               rrule = None\<rparr>,
              \<lparr>uid = 10, transp = ''TRANSPARENT'',
               dtstart = \<lparr>year = 2024, month = 5, day = 19\<rparr>,
               summary = Pingstdagen, categories = None, description = None,
               rrule = None\<rparr>])"
proof -
  have e: "easter 2024 = Inr \<lparr>year = 2024, month = 3, day = 31\<rparr>"
    using easter_ok [of 2024] by (simp add: easter_2024(1))
  have a: "date_sub \<lparr>year = 2024, month = 3, day = 31\<rparr> (timedelta 2 0)
             = Inr \<lparr>year = 2024, month = 3, day = 29\<rparr>"
    "date_sub \<lparr>year = 2024, month = 3, day = 31\<rparr> (timedelta 1 0)
             = Inr \<lparr>year = 2024, month = 3, day = 30\<rparr>"
    "date_add \<lparr>year = 2024, month = 3, day = 31\<rparr> (timedelta 1 0)
             = Inr \<lparr>year = 2024, month = 4, day = 1\<rparr>"
    "date_add \<lparr>year = 2024, month = 3, day = 31\<rparr> (timedelta 6 6)
             = Inr \<lparr>year = 2024, month = 5, day = 18\<rparr>"
    using easter_offsets [of 2024] by (simp_all add: easter_2024(1) days_after_2024)
  show ?thesis
    using C3_easter_relative_events [OF generate_2024_1, of 0] e a
    by (auto simp: generate_2024_1 counting_uuids_def)
qed

subsection \<open>Weekday-window events\<close>

text \<open>
  Claim C4. In a generated document the events whose recurrence rule names a weekday
  are exactly four, in this order, each with a yearly rule carrying the listed
  parameters: Midsummer Eve on Friday, month days 19 to 25 of June, with the annotation
  of the status DeFacto (a description, no category tag); Midsummer Day on Saturday,
  month days 20 to 26 of June, with those of the status Free (neither); All Saints' Eve
  on Friday, month days 30, 31, 1, 2, 3, 4, 5 of October and November, with those of the
  status Depends (category tag and description); All Saints' Day on Saturday, month
  days 31, 1, 2, 3, 4, 5, 6 of October and November, with those of the status Free. The
  rule is stored with its candidate lists as given; the anchor date is January 1 of the
  start year, and no date is resolved from the rule.
\<close>

theorem C4_weekday_window_rules:
  assumes "generate U start_year count = Inr doc"
  shows "filter weekday_window (subcomponents doc)
           = [\<lparr>uid = U (6 + 8 * nat count), transp = ''TRANSPARENT'',
               dtstart = \<lparr>year = start_year, month = 1, day = 1\<rparr>,
               summary = Midsommarafton, categories = None,
               description = Some defacto_description,
               rrule = Some \<lparr>FREQ = YEARLY, BYDAY = Some FR,
                              BYMONTHDAY = Some [19, 20, 21, 22, 23, 24, 25],
                              BYMONTH = Some [6]\<rparr>\<rparr>,
              \<lparr>uid = U (6 + 8 * nat count + 1), transp = ''TRANSPARENT'',
               dtstart = \<lparr>year = start_year, month = 1, day = 1\<rparr>,
               summary = Midsommardagen, categories = None, description = None,
               rrule = Some \<lparr>FREQ = YEARLY, BYDAY = Some SA,
                              BYMONTHDAY = Some [20, 21, 22, 23, 24, 25, 26],
                              BYMONTH = Some [6]\<rparr>\<rparr>,
              \<lparr>uid = U (6 + 8 * nat count + 2), transp = ''TRANSPARENT'',
               dtstart = \<lparr>year = start_year, month = 1, day = 1\<rparr>,
               summary = Allhelgonaafton, categories = Some ''Ledighet enligt avtal'',
               description = Some depends_description,
               rrule = Some \<lparr>FREQ = YEARLY, BYDAY = Some FR,
                              BYMONTHDAY = Some [30, 31, 1, 2, 3, 4, 5],
                              BYMONTH = Some [10, 11]\<rparr>\<rparr>,
              \<lparr>uid = U (6 + 8 * nat count + 3), transp = ''TRANSPARENT'',
               dtstart = \<lparr>year = start_year, month = 1, day = 1\<rparr>,
               summary = Alla_helgons_dag, categories = None, description = None,
               rrule = Some \<lparr>FREQ = YEARLY, BYDAY = Some SA,
                              BYMONTHDAY = Some [31, 1, 2, 3, 4, 5, 6],
                              BYMONTH = Some [10, 11]\<rparr>\<rparr>]"
proof -
  have "doc = expected_calendar U start_year count"
    using assms by (simp add: generate_Inr_iff)
  then show ?thesis
    by (simp add: filter_weekday_window window_events_def Holiday_fields
          midsummers_eve_rrule_def midsummer_day_rrule_def all_saints_eve_rrule_def
          all_saints_day_rrule_def)
qed

theorem C4_witness:
  "\<exists>doc. generate counting_uuids 2024 1 = Inr doc
     \<and> filter weekday_window (subcomponents doc)
         = [\<lparr>uid = 14, transp = ''TRANSPARENT'',
             dtstart = \<lparr>year = 2024, month = 1, day = 1\<rparr>,
             summary = Midsommarafton, categories = None,
             description = Some defacto_description,
             rrule = Some \<lparr>FREQ = YEARLY, BYDAY = Some FR,
                            BYMONTHDAY = Some [19, 20, 21, 22, 23, 24, 25],
                            BYMONTH = Some [6]\<rparr>\<rparr>,
            \<lparr>uid = 15, transp = ''TRANSPARENT'',
             dtstart = \<lparr>year = 2024, month = 1, day = 1\<rparr>,
             summary = Midsommardagen, categories = None, description = None,
             rrule = Some \<lparr>FREQ = YEARLY, BYDAY = Some SA,
                            BYMONTHDAY = Some [20, 21, 22, 23, 24, 25, 26],
                            BYMONTH = Some [6]\<rparr>\<rparr>,
            \<lparr>uid = 16, transp = ''TRANSPARENT'',
             dtstart = \<lparr>year = 2024, month = 1, day = 1\<rparr>,
             summary = Allhelgonaafton, categories = Some ''Ledighet enligt avtal'',
             description = Some depends_description,
             rrule = Some \<lparr>FREQ = YEARLY, BYDAY = Some FR,
                            BYMONTHDAY = Some [30, 31, 1, 2, 3, 4, 5],
                            BYMONTH = Some [10, 11]\<rparr>\<rparr>,
            \<lparr>uid = 17, transp = ''TRANSPARENT'',
             dtstart = \<lparr>year = 2024, month = 1, day = 1\<rparr>,
             summary = Alla_helgons_dag, categories = None, description = None,
             rrule = Some \<lparr>FREQ = YEARLY, BYDAY = Some SA,
                            BYMONTHDAY = Some [31, 1, 2, 3, 4, 5, 6],
                            BYMONTH = Some [10, 11]\<rparr>\<rparr>]"
  using C4_weekday_window_rules [OF generate_2024_1]
  by (simp add: generate_2024_1 counting_uuids_def)

subsection \<open>Order of the events in the document\<close>

text \<open>
  Claim C5, as stated (all Easter-relative events first, then the fixed-date events,
  then the weekday-window events), fails: in the document for start year 2024 and
  count 1 the first event is the fixed-date New Year's Day, the Easter-relative Maundy
  Thursday comes fourth, and the fixed-date Christmas Eve (event 18) follows the
  weekday-window Midsummer Eve (event 14).
\<close>

theorem C5_counterexample:
  "\<not> isl (generate counting_uuids 2024 1)
   \<and> summary (subcomponents (projr (generate counting_uuids 2024 1)) ! 0) = Nyarsdagen
   \<and> fixed_date (subcomponents (projr (generate counting_uuids 2024 1)) ! 0)
   \<and> summary (subcomponents (projr (generate counting_uuids 2024 1)) ! 3) = Skartorsdagen
   \<and> \<not> recurring (subcomponents (projr (generate counting_uuids 2024 1)) ! 3)
   \<and> summary (subcomponents (projr (generate counting_uuids 2024 1)) ! 14) = Midsommarafton
   \<and> weekday_window (subcomponents (projr (generate counting_uuids 2024 1)) ! 14)
   \<and> summary (subcomponents (projr (generate counting_uuids 2024 1)) ! 18) = Julafton
   \<and> fixed_date (subcomponents (projr (generate counting_uuids 2024 1)) ! 18)"
  by (simp add: generate_2024_1 expected_events_2024_1 head_events_def easter_events_def
        tail_events_def window_events_def)

text \<open>
  Claim C5, amended. In a generated document the events appear in this fixed order:
  New Year's Day, Epiphany Eve and Epiphany (fixed-date); then, for each year of the
  range in ascending order, the eight Easter-relative events, the fourth of which is
  anchored at the Easter date of that year; then Walpurgis Eve, May Day and National
  Day (fixed-date); then the four weekday-window events; then Christmas Eve, Christmas
  Day, Boxing Day and New Year's Eve (fixed-date). Two runs with the same arguments
  produce the same events in the same order, identifiers apart.
\<close>

theorem C5_event_order:
  assumes "generate U start_year count = Inr doc"
  shows "map summary (subcomponents doc)
           = [Nyarsdagen, Trettondagsafton, Trettondedag_jul]
             @ concat (replicate (nat count)
                         [Skartorsdagen, Langfredagen, Paskafton, Paskdagen, Annandag_pask,
                          Kristi_himmelsfardsdag, Pingstafton, Pingstdagen])
             @ [Valborgsmassoafton, Forsta_maj, Sveriges_nationaldag,
                Midsommarafton, Midsommardagen, Allhelgonaafton, Alla_helgons_dag,
                Julafton, Juldagen, Annandag_jul, Nyarsafton]
         \<and> map fixed_date (subcomponents doc)
             = replicate 3 True @ replicate (8 * nat count) False @ replicate 3 True
               @ replicate 4 False @ replicate 4 True
         \<and> map weekday_window (subcomponents doc)
             = replicate 3 False @ replicate (8 * nat count) False @ replicate 3 False
               @ replicate 4 True @ replicate 4 False
         \<and> map recurring (subcomponents doc)
             = replicate 3 True @ replicate (8 * nat count) False @ replicate 11 True
         \<and> (\<forall>i. 0 \<le> i \<and> i < count \<longrightarrow>
                easter (start_year + i) = Inr (dtstart (subcomponents doc ! (6 + 8 * nat i))))
         \<and> (\<forall>U' doc'. generate U' start_year count = Inr doc' \<longrightarrow>
                map anonymous (subcomponents doc') = map anonymous (subcomponents doc))"
proof -
  have r: "in_range start_year count" and d: "doc = expected_calendar U start_year count"
    using assms by (simp_all add: generate_Inr_iff)
  have A: "\<forall>i. 0 \<le> i \<and> i < count \<longrightarrow>
             easter (start_year + i) = Inr (dtstart (subcomponents doc ! (6 + 8 * nat i)))"
  proof (intro allI impI)
    fix i assume i: "0 \<le> i \<and> i < count"
    then have y: "1 \<le> start_year + i" "start_year + i \<le> 9999"
      using r by (simp_all add: in_range_def)
    show "easter (start_year + i) = Inr (dtstart (subcomponents doc ! (6 + 8 * nat i)))"
      unfolding d subcomponents_expected using i
      by (simp add: easter_sunday_event easter_ok [OF y])
  qed
  have B: "\<forall>U' doc'. generate U' start_year count = Inr doc' \<longrightarrow>
             map anonymous (subcomponents doc') = map anonymous (subcomponents doc)"
    unfolding d by (simp add: generate_Inr_iff anonymous_expected_events)
  show ?thesis
    using A B unfolding d subcomponents_expected
    by (simp only: summary_expected_events recurring_expected_events
          weekday_window_expected_events fixed_date_expected_events simp_thms)
qed

theorem C5_witness:
  "(0::int) \<le> 0 \<and> (0::int) < 1
   \<and> (\<exists>doc doc'. generate counting_uuids 2024 1 = Inr doc
         \<and> generate Suc 2024 1 = Inr doc'
         \<and> map summary (subcomponents doc)
             = [Nyarsdagen, Trettondagsafton, Trettondedag_jul,
                Skartorsdagen, Langfredagen, Paskafton, Paskdagen, Annandag_pask,
                Kristi_himmelsfardsdag, Pingstafton, Pingstdagen,
                Valborgsmassoafton, Forsta_maj, Sveriges_nationaldag,
                Midsommarafton, Midsommardagen, Allhelgonaafton, Alla_helgons_dag,
                Julafton, Juldagen, Annandag_jul, Nyarsafton]
         \<and> easter 2024 = Inr (dtstart (subcomponents doc ! 6))
         \<and> map anonymous (subcomponents doc') = map anonymous (subcomponents doc))"
proof -
  have s: "generate Suc 2024 1 = Inr (expected_calendar Suc 2024 1)"
    by (rule generate_in_range [OF in_range_2024_1])
  note c = C5_event_order [OF generate_2024_1]
  have 1: "map summary (subcomponents (expected_calendar counting_uuids 2024 1))
       = [Nyarsdagen, Trettondagsafton, Trettondedag_jul,
          Skartorsdagen, Langfredagen, Paskafton, Paskdagen, Annandag_pask,
          Kristi_himmelsfardsdag, Pingstafton, Pingstdagen,
          Valborgsmassoafton, Forsta_maj, Sveriges_nationaldag,
          Midsommarafton, Midsommardagen, Allhelgonaafton, Alla_helgons_dag,
          Julafton, Juldagen, Annandag_jul, Nyarsafton]"
    using c by simp
  have 2: "easter 2024
             = Inr (dtstart (subcomponents (expected_calendar counting_uuids 2024 1) ! 6))"
    using c [THEN conjunct2, THEN conjunct2, THEN conjunct2, THEN conjunct2, THEN conjunct1,
             rule_format, of 0]
    by simp
  have 3: "map anonymous (subcomponents (expected_calendar Suc 2024 1))
       = map anonymous (subcomponents (expected_calendar counting_uuids 2024 1))"
    using c [THEN conjunct2, THEN conjunct2, THEN conjunct2, THEN conjunct2, THEN conjunct2,
             rule_format, OF s] .
  show ?thesis using generate_2024_1 s 1 2 3 by simp
qed

subsection \<open>Two runs with the same arguments\<close>

text \<open>
  Claim C6. Two calls with the same arguments either fail with the same error or both
  return a document, and the two documents agree on the document properties and, event
  by event, on every field but the unique identifier: anchor date, summary, recurrence
  rule, description, categories and transparency. The identifiers are the values that
  the identifier generator returns, in order of creation, so they differ between the
  two calls as far as the generator's values do.
\<close>

theorem C6_determinism_apart_from_uid:
  "(\<forall>e. generate U start_year count = Inl e \<longleftrightarrow> generate U' start_year count = Inl e)
   \<and> (\<forall>doc doc'. generate U start_year count = Inr doc
                   \<and> generate U' start_year count = Inr doc' \<longrightarrow>
          properties doc = properties doc'
          \<and> map dtstart (subcomponents doc) = map dtstart (subcomponents doc')
          \<and> map summary (subcomponents doc) = map summary (subcomponents doc')
          \<and> map rrule (subcomponents doc) = map rrule (subcomponents doc')
          \<and> map description (subcomponents doc) = map description (subcomponents doc')
          \<and> map categories (subcomponents doc) = map categories (subcomponents doc')
          \<and> map transp (subcomponents doc) = map transp (subcomponents doc')
          \<and> map uid (subcomponents doc) = map U [0..<length (subcomponents doc)]
          \<and> map uid (subcomponents doc') = map U' [0..<length (subcomponents doc')])"
proof -
  have A: "\<forall>e. generate U start_year count = Inl e \<longleftrightarrow> generate U' start_year count = Inl e"
    by (simp add: generate_Inl_iff)
  have B: "properties doc = properties doc'
          \<and> map dtstart (subcomponents doc) = map dtstart (subcomponents doc')
          \<and> map summary (subcomponents doc) = map summary (subcomponents doc')
          \<and> map rrule (subcomponents doc) = map rrule (subcomponents doc')
          \<and> map description (subcomponents doc) = map description (subcomponents doc')
          \<and> map categories (subcomponents doc) = map categories (subcomponents doc')
          \<and> map transp (subcomponents doc) = map transp (subcomponents doc')
          \<and> map uid (subcomponents doc) = map U [0..<length (subcomponents doc)]
          \<and> map uid (subcomponents doc') = map U' [0..<length (subcomponents doc')]"
    if g: "generate U start_year count = Inr doc \<and> generate U' start_year count = Inr doc'"
    for doc doc'
  proof -
    have d: "doc = expected_calendar U start_year count"
      "doc' = expected_calendar U' start_year count"
      using g by (simp_all add: generate_Inr_iff)
    have a: "map anonymous (subcomponents doc) = map anonymous (subcomponents doc')"
      unfolding d subcomponents_expected
      by (simp only: anonymous_expected_events)
    have p: "properties doc = properties doc'"
      unfolding d by (simp add: expected_calendar_def)
    have u: "map uid (subcomponents doc) = map U [0..<length (subcomponents doc)]"
      "map uid (subcomponents doc') = map U' [0..<length (subcomponents doc')]"
      unfolding d subcomponents_expected by (rule uid_expected_events)+
    show ?thesis
      using p u map_field_anonymous [OF a] by blast
  qed
  show ?thesis using A B by blast
qed

theorem C6_witness:
  "(\<exists>doc doc'. generate counting_uuids 2024 1 = Inr doc \<and> generate Suc 2024 1 = Inr doc'
        \<and> properties doc = properties doc'
        \<and> map dtstart (subcomponents doc) = map dtstart (subcomponents doc')
        \<and> map summary (subcomponents doc) = map summary (subcomponents doc')
        \<and> map rrule (subcomponents doc) = map rrule (subcomponents doc')
        \<and> map description (subcomponents doc) = map description (subcomponents doc')
        \<and> map categories (subcomponents doc) = map categories (subcomponents doc')
        \<and> map transp (subcomponents doc) = map transp (subcomponents doc')
        \<and> map uid (subcomponents doc) = [0..<22]
        \<and> map uid (subcomponents doc') = [1..<23])
   \<and> generate counting_uuids 0 1 = Inl ValueError
   \<and> generate Suc 0 1 = Inl ValueError"
proof -
  have s: "generate Suc 2024 1 = Inr (expected_calendar Suc 2024 1)"
    by (rule generate_in_range [OF in_range_2024_1])
  have l: "length (subcomponents (expected_calendar V 2024 1)) = 22" for V
    by (simp add: length_expected_events)
  have cu: "counting_uuids = (\<lambda>n. n)" by (simp add: counting_uuids_def fun_eq_iff)
  have m: "map counting_uuids [0..<22] = [0..<22]" "map Suc [0..<22] = [1..<23]"
    unfolding cu by (simp_all add: map_Suc_upt)
  have f: "generate counting_uuids 0 1 = Inl ValueError"
    by (simp add: generate_Inl_iff in_range_def)
  note c = C6_determinism_apart_from_uid [of counting_uuids 2024 1 Suc]
  note c0 = C6_determinism_apart_from_uid [of counting_uuids 0 1 Suc]
  have f': "generate Suc 0 1 = Inl ValueError"
    using c0 f by blast
  note fs = c [THEN conjunct2, rule_format, OF conjI [OF generate_2024_1 s],
              unfolded l m]
  show ?thesis
    apply (rule conjI)
     apply (rule exI [of _ "expected_calendar counting_uuids 2024 1"])
     apply (rule exI [of _ "expected_calendar Suc 2024 1"])
     apply (rule conjI)
      apply (rule generate_2024_1)
     apply (rule conjI)
      apply (rule s)
     apply (rule fs)
    apply (rule conjI)
     apply (rule f)
    apply (rule f')
    done
qed

subsection \<open>Shape of the weekday-window rules\<close>




subsection \<open>Work status and annotations\<close>

text \<open>
  Claim C8. The work status passed to the event constructor decides the annotations and
  nothing else: with status Depends the event carries the category tag and a
  description, with status DeFacto a description and no category tag, with status Free
  neither; every other field is the same for all statuses, also for an event with the
  yearly rule of a fixed date. Every event of a generated document is built by this
  constructor, with or without a recurrence rule added, and so carries the annotations
  of one of the three statuses.
\<close>

theorem C8_work_status_annotations:
  "categories (Holiday u dt s DEPENDS) = Some ''Ledighet enligt avtal''
   \<and> description (Holiday u dt s DEPENDS) = Some depends_description
   \<and> categories (Holiday u dt s DEFACTO) = None
   \<and> description (Holiday u dt s DEFACTO) = Some defacto_description
   \<and> categories (Holiday u dt s FREE) = None
   \<and> description (Holiday u dt s FREE) = None
   \<and> (Holiday u dt s w)\<lparr>categories := None, description := None\<rparr>
       = \<lparr>uid = u, transp = ''TRANSPARENT'', dtstart = dt, summary = s,
          categories = None, description = None, rrule = None\<rparr>
   \<and> (FixedHoliday u dt s w)\<lparr>categories := None, description := None\<rparr>
       = \<lparr>uid = u, transp = ''TRANSPARENT'', dtstart = dt, summary = s,
          categories = None, description = None,
          rrule = Some \<lparr>FREQ = YEARLY, BYDAY = None, BYMONTHDAY = None, BYMONTH = None\<rparr>\<rparr>
   \<and> categories (FixedHoliday u dt s w) = categories (Holiday u dt s w)
   \<and> description (FixedHoliday u dt s w) = description (Holiday u dt s w)
   \<and> (\<forall>doc e. generate U start_year count = Inr doc \<and> e \<in> set (subcomponents doc) \<longrightarrow>
          (\<exists>u' dt' s' w' r. e = (Holiday u' dt' s' w')\<lparr>rrule := r\<rparr>)
          \<and> (categories e = Some ''Ledighet enligt avtal''
                \<and> description e = Some depends_description
              \<or> categories e = None \<and> description e = Some defacto_description
              \<or> categories e = None \<and> description e = None))"
proof -
  have A: "\<forall>doc e. generate U start_year count = Inr doc \<and> e \<in> set (subcomponents doc) \<longrightarrow>
          (\<exists>u' dt' s' w' r. e = (Holiday u' dt' s' w')\<lparr>rrule := r\<rparr>)
          \<and> (categories e = Some ''Ledighet enligt avtal''
                \<and> description e = Some depends_description
              \<or> categories e = None \<and> description e = Some defacto_description
              \<or> categories e = None \<and> description e = None)"
  proof (intro allI impI)
    fix doc e
    assume "generate U start_year count = Inr doc \<and> e \<in> set (subcomponents doc)"
    then have m: "e \<in> set (expected_events U start_year count)"
      by (auto simp: generate_Inr_iff)
    show "(\<exists>u' dt' s' w' r. e = (Holiday u' dt' s' w')\<lparr>rrule := r\<rparr>)
          \<and> (categories e = Some ''Ledighet enligt avtal''
                \<and> description e = Some depends_description
              \<or> categories e = None \<and> description e = Some defacto_description
              \<or> categories e = None \<and> description e = None)"
      using expected_events_shape [OF m] expected_events_annotations [OF m] by (rule conjI)
  qed
  have B: "(Holiday u dt s w)\<lparr>categories := None, description := None\<rparr>
       = \<lparr>uid = u, transp = ''TRANSPARENT'', dtstart = dt, summary = s,
          categories = None, description = None, rrule = None\<rparr>"
    by (cases w) (simp_all add: Holiday_fields)
  have C: "(FixedHoliday u dt s w)\<lparr>categories := None, description := None\<rparr>
       = \<lparr>uid = u, transp = ''TRANSPARENT'', dtstart = dt, summary = s,
          categories = None, description = None,
          rrule = Some \<lparr>FREQ = YEARLY, BYDAY = None, BYMONTHDAY = None, BYMONTH = None\<rparr>\<rparr>"
    by (cases w) (simp_all add: FixedHoliday_fields)
  have D: "categories (FixedHoliday u dt s w) = categories (Holiday u dt s w)"
    "description (FixedHoliday u dt s w) = description (Holiday u dt s w)"
    by (simp_all add: FixedHoliday_def)
  have E: "categories (Holiday u dt s DEPENDS) = Some ''Ledighet enligt avtal''"
    "description (Holiday u dt s DEPENDS) = Some depends_description"
    "categories (Holiday u dt s DEFACTO) = None"
    "description (Holiday u dt s DEFACTO) = Some defacto_description"
    "categories (Holiday u dt s FREE) = None"
    "description (Holiday u dt s FREE) = None"
    by (simp_all add: Holiday_fields)
  show ?thesis
    by (intro conjI) (rule A B C D E)+
qed

theorem C8_witness:
  "\<exists>doc e. generate counting_uuids 2024 1 = Inr doc
     \<and> e = \<lparr>uid = 1, transp = ''TRANSPARENT'',
             dtstart = \<lparr>year = 2024, month = 1, day = 5\<rparr>,
             summary = Trettondagsafton, categories = Some ''Ledighet enligt avtal'',
             description = Some depends_description,
             rrule = Some \<lparr>FREQ = YEARLY, BYDAY = None, BYMONTHDAY = None,
                            BYMONTH = None\<rparr>\<rparr>
     \<and> e \<in> set (subcomponents doc)
     \<and> (\<exists>u' dt' s' w' r. e = (Holiday u' dt' s' w')\<lparr>rrule := r\<rparr>)
     \<and> categories (Holiday 1 \<lparr>year = 2024, month = 1, day = 5\<rparr> Trettondagsafton DEPENDS)
         = categories e"
proof -
  define e where "e = \<lparr>uid = 1, transp = ''TRANSPARENT'',
             dtstart = \<lparr>year = 2024, month = 1, day = 5\<rparr>,
             summary = Trettondagsafton, categories = Some ''Ledighet enligt avtal'',
             description = Some depends_description,
             rrule = Some \<lparr>FREQ = YEARLY, BYDAY = None, BYMONTHDAY = None,
                            BYMONTH = None\<rparr>\<rparr>"
  have m: "e \<in> set (subcomponents (expected_calendar counting_uuids 2024 1))"
    by (simp add: e_def expected_events_2024_1 head_events_def counting_uuids_def
          FixedHoliday_fields)
  note c = C8_work_status_annotations
    [of 1 "\<lparr>year = 2024, month = 1, day = 5\<rparr>" Trettondagsafton DEPENDS counting_uuids 2024 1]
  have sh: "\<exists>u' dt' s' w' r. e = (Holiday u' dt' s' w')\<lparr>rrule := r\<rparr>"
    using c [THEN conjunct2, THEN conjunct2, THEN conjunct2, THEN conjunct2, THEN conjunct2,
             THEN conjunct2, THEN conjunct2, THEN conjunct2, THEN conjunct2, THEN conjunct2,
             rule_format, OF conjI [OF generate_2024_1 m]]
    by (rule conjunct1)
  have ca: "categories (Holiday 1 \<lparr>year = 2024, month = 1, day = 5\<rparr>
                    Trettondagsafton DEPENDS) = categories e"
    using c [THEN conjunct1] by (simp add: e_def)
  show ?thesis
    apply (rule exI [of _ "expected_calendar counting_uuids 2024 1"])
    apply (rule exI [of _ e])
    apply (intro conjI)
        apply (rule generate_2024_1)
       apply (rule e_def)
      apply (rule m)
     apply (rule sh)
    apply (rule ca)
    done
qed

subsection \<open>Easter Sunday\<close>

text \<open>
  Claim C9. For every year from 1 to 9999, the range the date library supports,
  \<open>easter\<close> returns a date of that year which is a Sunday (weekday 6) and lies between
  March 22 and April 25 inclusive.
\<close>

theorem C9_easter_sunday_in_bounds:
  assumes "1 \<le> y" "y \<le> 9999"
  shows "\<exists>E. easter y = Inr E \<and> year E = y \<and> weekday E = 6
           \<and> (month E = 3 \<and> 22 \<le> day E \<and> day E \<le> 31
               \<or> month E = 4 \<and> 1 \<le> day E \<and> day E \<le> 25)"
proof -
  have p: "- 6 \<le> easter_p y" "easter_p y \<le> 28"
    using easter_p_range [of y] by simp_all
  have "month (easter_date y) = 3 \<and> 22 \<le> day (easter_date y) \<and> day (easter_date y) \<le> 31
          \<or> month (easter_date y) = 4 \<and> 1 \<le> day (easter_date y) \<and> day (easter_date y) \<le> 25"
    using p by (simp add: easter_date_def)
  moreover have "year (easter_date y) = y" by (simp add: easter_date_def)
  ultimately show ?thesis
    using easter_ok [OF assms] easter_is_sunday [of y] by blast
qed

theorem C9_witness:
  "(1::int) \<le> 2024 \<and> (2024::int) \<le> 9999
     \<and> (\<exists>E. easter 2024 = Inr E \<and> year E = 2024 \<and> weekday E = 6
           \<and> (month E = 3 \<and> 22 \<le> day E \<and> day E \<le> 31
               \<or> month E = 4 \<and> 1 \<le> day E \<and> day E \<le> 25))"
  using C9_easter_sunday_in_bounds [of 2024] by simp


subsection \<open>Fixed-date events\<close>

text \<open>
  Claim C10. In a generated document the events whose recurrence rule names no weekday
  are exactly ten, in this order, each with the rule that has the yearly frequency and
  no other part, and each anchored at its month and day in the start year: New Year's
  Day (January 1), Epiphany Eve (January 5), Epiphany (January 6), Walpurgis Eve (April
  30), May Day (May 1), National Day (June 6), Christmas Eve (December 24), Christmas
  Day (December 25), Boxing Day (December 26) and New Year's Eve (December 31). Epiphany
  Eve and Walpurgis Eve carry the annotations of the status Depends (category tag and
  description), Christmas Eve and New Year's Eve those of the status DeFacto (a
  description, no category tag), and the other six those of the status Free (neither).
\<close>

theorem C10_fixed_date_events:
  assumes "generate U start_year count = Inr doc"
  shows "filter fixed_date (subcomponents doc)
           = [\<lparr>uid = U 0, transp = ''TRANSPARENT'',
               dtstart = \<lparr>year = start_year, month = 1, day = 1\<rparr>,
               summary = Nyarsdagen, categories = None, description = None,
               rrule = Some \<lparr>FREQ = YEARLY, BYDAY = None, BYMONTHDAY = None,
                              BYMONTH = None\<rparr>\<rparr>,
              \<lparr>uid = U 1, transp = ''TRANSPARENT'',
               dtstart = \<lparr>year = start_year, month = 1, day = 5\<rparr>,
               summary = Trettondagsafton, categories = Some ''Ledighet enligt avtal'',
               description = Some depends_description,
               rrule = Some \<lparr>FREQ = YEARLY, BYDAY = None, BYMONTHDAY = None,
                              BYMONTH = None\<rparr>\<rparr>,
              \<lparr>uid = U 2, transp = ''TRANSPARENT'',
               dtstart = \<lparr>year = start_year, month = 1, day = 6\<rparr>,
               summary = Trettondedag_jul, categories = None, description = None,
               rrule = Some \<lparr>FREQ = YEARLY, BYDAY = None, BYMONTHDAY = None,
                              BYMONTH = None\<rparr>\<rparr>,
              \<lparr>uid = U (3 + 8 * nat count), transp = ''TRANSPARENT'',
               dtstart = \<lparr>year = start_year, month = 4, day = 30\<rparr>,
               summary = Valborgsmassoafton, categories = Some ''Ledighet enligt avtal'',
               description = Some depends_description,
               rrule = Some \<lparr>FREQ = YEARLY, BYDAY = None, BYMONTHDAY = None,
                              BYMONTH = None\<rparr>\<rparr>,
              \<lparr>uid = U (4 + 8 * nat count), transp = ''TRANSPARENT'',
               dtstart = \<lparr>year = start_year, month = 5, day = 1\<rparr>,
               summary = Forsta_maj, categories = None, description = None,
               rrule = Some \<lparr>FREQ = YEARLY, BYDAY = None, BYMONTHDAY = None,
                              BYMONTH = None\<rparr>\<rparr>,
              \<lparr>uid = U (5 + 8 * nat count), transp = ''TRANSPARENT'',
               dtstart = \<lparr>year = start_year, month = 6, day = 6\<rparr>,
               summary = Sveriges_nationaldag, categories = None, description = None,
               rrule = Some \<lparr>FREQ = YEARLY, BYDAY = None, BYMONTHDAY = None,
                              BYMONTH = None\<rparr>\<rparr>,
              \<lparr>uid = U (10 + 8 * nat count), transp = ''TRANSPARENT'',
               dtstart = \<lparr>year = start_year, month = 12, day = 24\<rparr>,
               summary = Julafton, categories = None,
               description = Some defacto_description,
               rrule = Some \<lparr>FREQ = YEARLY, BYDAY = None, BYMONTHDAY = None,
                              BYMONTH = None\<rparr>\<rparr>,
              \<lparr>uid = U (11 + 8 * nat count), transp = ''TRANSPARENT'',
               dtstart = \<lparr>year = start_year, month = 12, day = 25\<rparr>,
               summary = Juldagen, categories = None, description = None,
               rrule = Some \<lparr>FREQ = YEARLY, BYDAY = None, BYMONTHDAY = None,
                              BYMONTH = None\<rparr>\<rparr>,
              \<lparr>uid = U (12 + 8 * nat count), transp = ''TRANSPARENT'',
               dtstart = \<lparr>year = start_year, month = 12, day = 26\<rparr>,
               summary = Annandag_jul, categories = None, description = None,
               rrule = Some \<lparr>FREQ = YEARLY, BYDAY = None, BYMONTHDAY = None,
                              BYMONTH = None\<rparr>\<rparr>,
              \<lparr>uid = U (13 + 8 * nat count), transp = ''TRANSPARENT'',
               dtstart = \<lparr>year = start_year, month = 12, day = 31\<rparr>,
               summary = Nyarsafton, categories = None,
               description = Some defacto_description,
               rrule = Some \<lparr>FREQ = YEARLY, BYDAY = None, BYMONTHDAY = None,
                              BYMONTH = None\<rparr>\<rparr>]"
proof -
  have "doc = expected_calendar U start_year count"
    using assms by (simp add: generate_Inr_iff)
  then show ?thesis
    by (simp add: filter_fixed_date head_events_def FixedHoliday_fields)
qed

theorem C10_witness:
  "\<exists>doc. generate counting_uuids 2000 3 = Inr doc
     \<and> filter fixed_date (subcomponents doc)
         = [\<lparr>uid = 0, transp = ''TRANSPARENT'',
             dtstart = \<lparr>year = 2000, month = 1, day = 1\<rparr>,
             summary = Nyarsdagen, categories = None, description = None,
             rrule = Some \<lparr>FREQ = YEARLY, BYDAY = None, BYMONTHDAY = None,
                            BYMONTH = None\<rparr>\<rparr>,
            \<lparr>uid = 1, transp = ''TRANSPARENT'',
             dtstart = \<lparr>year = 2000, month = 1, day = 5\<rparr>,
             summary = Trettondagsafton, categories = Some ''Ledighet enligt avtal'',
             description = Some depends_description,
             rrule = Some \<lparr>FREQ = YEARLY, BYDAY = None, BYMONTHDAY = None,
                            BYMONTH = None\<rparr>\<rparr>,
            \<lparr>uid = 2, transp = ''TRANSPARENT'',
             dtstart = \<lparr>year = 2000, month = 1, day = 6\<rparr>,
             summary = Trettondedag_jul, categories = None, description = None,
             rrule = Some \<lparr>FREQ = YEARLY, BYDAY = None, BYMONTHDAY = None,
                            BYMONTH = None\<rparr>\<rparr>,
            \<lparr>uid = 27, transp = ''TRANSPARENT'',
             dtstart = \<lparr>year = 2000, month = 4, day = 30\<rparr>,
             summary = Valborgsmassoafton, categories = Some ''Ledighet enligt avtal'',
             description = Some depends_description,
             rrule = Some \<lparr>FREQ = YEARLY, BYDAY = None, BYMONTHDAY = None,
                            BYMONTH = None\<rparr>\<rparr>,
            \<lparr>uid = 28, transp = ''TRANSPARENT'',
             dtstart = \<lparr>year = 2000, month = 5, day = 1\<rparr>,
             summary = Forsta_maj, categories = None, description = None,
             rrule = Some \<lparr>FREQ = YEARLY, BYDAY = None, BYMONTHDAY = None,
                            BYMONTH = None\<rparr>\<rparr>,
            \<lparr>uid = 29, transp = ''TRANSPARENT'',
             dtstart = \<lparr>year = 2000, month = 6, day = 6\<rparr>,
             summary = Sveriges_nationaldag, categories = None, description = None,
             rrule = Some \<lparr>FREQ = YEARLY, BYDAY = None, BYMONTHDAY = None,
                            BYMONTH = None\<rparr>\<rparr>,
            \<lparr>uid = 34, transp = ''TRANSPARENT'',
             dtstart = \<lparr>year = 2000, month = 12, day = 24\<rparr>,
             summary = Julafton, categories = None,
             description = Some defacto_description,
             rrule = Some \<lparr>FREQ = YEARLY, BYDAY = None, BYMONTHDAY = None,
                            BYMONTH = None\<rparr>\<rparr>,
            \<lparr>uid = 35, transp = ''TRANSPARENT'',
             dtstart = \<lparr>year = 2000, month = 12, day = 25\<rparr>,
             summary = Juldagen, categories = None, description = None,
             rrule = Some \<lparr>FREQ = YEARLY, BYDAY = None, BYMONTHDAY = None,
                            BYMONTH = None\<rparr>\<rparr>,
            \<lparr>uid = 36, transp = ''TRANSPARENT'',
             dtstart = \<lparr>year = 2000, month = 12, day = 26\<rparr>,
             summary = Annandag_jul, categories = None, description = None,
             rrule = Some \<lparr>FREQ = YEARLY, BYDAY = None, BYMONTHDAY = None,
                            BYMONTH = None\<rparr>\<rparr>,
            \<lparr>uid = 37, transp = ''TRANSPARENT'',
             dtstart = \<lparr>year = 2000, month = 12, day = 31\<rparr>,
             summary = Nyarsafton, categories = None,
             description = Some defacto_description,
             rrule = Some \<lparr>FREQ = YEARLY, BYDAY = None, BYMONTHDAY = None,
                            BYMONTH = None\<rparr>\<rparr>]"
proof -
  have g: "generate counting_uuids 2000 3 = Inr (expected_calendar counting_uuids 2000 3)"
    by (rule generate_in_range) (simp add: in_range_def)
  show ?thesis
    using C10_fixed_date_events [OF g]
    by (simp add: g counting_uuids_def)
qed

end
